theory Spec2Isabelle
  imports Complex_Main
begin

section \<open>Go library functions the package calls\<close>

text \<open>
  A Go string is a sequence of bytes; it is modelled as \<open>string\<close> (a list of 8-bit
  \<open>char\<close>s). The functions of this section belong to the Go standard library, not to
  the repository; they are written out here for the inputs the package hands them.
\<close>

subsection \<open>strings.TrimSpace, strings.IndexByte\<close>

text \<open>
  \<open>strings.TrimSpace\<close> removes leading and trailing white space "as defined by Unicode"
  (\<open>unicode.IsSpace\<close>): the code points U+0009..U+000D, U+0020, U+0085, U+00A0, U+1680,
  U+2000..U+200A, U+2028, U+2029, U+202F, U+205F and U+3000. On a byte string these are
  the following UTF-8 encodings; any other byte sequence (malformed UTF-8 too) decodes to a
  rune that is not white space.
\<close>

definition white_space_encodings :: "string list" where
  "white_space_encodings =
     [[CHR 0x09], [CHR 0x0A], [CHR 0x0B], [CHR 0x0C], [CHR 0x0D], [CHR 0x20],
      [CHR 0xC2, CHR 0x85], [CHR 0xC2, CHR 0xA0],
      [CHR 0xE1, CHR 0x9A, CHR 0x80],
      [CHR 0xE2, CHR 0x80, CHR 0x80], [CHR 0xE2, CHR 0x80, CHR 0x81],
      [CHR 0xE2, CHR 0x80, CHR 0x82], [CHR 0xE2, CHR 0x80, CHR 0x83],
      [CHR 0xE2, CHR 0x80, CHR 0x84], [CHR 0xE2, CHR 0x80, CHR 0x85],
      [CHR 0xE2, CHR 0x80, CHR 0x86], [CHR 0xE2, CHR 0x80, CHR 0x87],
      [CHR 0xE2, CHR 0x80, CHR 0x88], [CHR 0xE2, CHR 0x80, CHR 0x89],
      [CHR 0xE2, CHR 0x80, CHR 0x8A],
      [CHR 0xE2, CHR 0x80, CHR 0xA8], [CHR 0xE2, CHR 0x80, CHR 0xA9],
      [CHR 0xE2, CHR 0x80, CHR 0xAF],
      [CHR 0xE2, CHR 0x81, CHR 0x9F],
      [CHR 0xE3, CHR 0x80, CHR 0x80]]"

primrec starts_with :: "string \<Rightarrow> string \<Rightarrow> bool" where
  "starts_with [] s = True"
| "starts_with (q # qs) s = (case s of [] \<Rightarrow> False | c # cs \<Rightarrow> q = c \<and> starts_with qs cs)"

text \<open>The width in bytes of the first of the encodings \<open>qs\<close> that \<open>s\<close> starts with, 0 if none.\<close>

primrec leading_width :: "string list \<Rightarrow> string \<Rightarrow> nat" where
  "leading_width [] s = 0"
| "leading_width (q # qs) s = (if starts_with q s then length q else leading_width qs s)"

fun strip_leading :: "string list \<Rightarrow> string \<Rightarrow> string" where
  "strip_leading qs [] = []"
| "strip_leading qs (c # cs) =
     (case leading_width qs (c # cs) of
        0 \<Rightarrow> c # cs
      | Suc k \<Rightarrow> strip_leading qs (drop k cs))"

definition TrimLeftSpace :: "string \<Rightarrow> string" where
  "TrimLeftSpace s = strip_leading white_space_encodings s"

definition TrimRightSpace :: "string \<Rightarrow> string" where
  "TrimRightSpace s = rev (strip_leading (map rev white_space_encodings) (rev s))"

definition TrimSpace :: "string \<Rightarrow> string" where
  "TrimSpace s = TrimRightSpace (TrimLeftSpace s)"

text \<open>\<open>strings.IndexByte\<close>: the index of the first occurrence of the byte, or -1.\<close>

fun IndexByte :: "string \<Rightarrow> char \<Rightarrow> int" where
  "IndexByte [] c = - 1"
| "IndexByte (x # xs) c =
     (if x = c then 0 else (let i = IndexByte xs c in if i < 0 then - 1 else i + 1))"

subsection \<open>strconv.Atoi, strconv.ParseInt\<close>

text \<open>
  Base-10 parsing as \<open>strconv.ParseInt(s, 10, bitSize)\<close> does it: an optional sign, then
  one or more decimal digits and nothing else; a value outside the signed \<open>bitSize\<close>-bit
  range is an error (\<open>None\<close>) as well. \<open>strconv.Atoi\<close> is \<open>ParseInt(s, 10, 0)\<close> for the
  platform's \<open>int\<close>, taken to be 64 bits wide.
\<close>

definition is_digit :: "char \<Rightarrow> bool" where
  "is_digit c = (48 \<le> (of_char c :: nat) \<and> (of_char c :: nat) \<le> 57)"

primrec all_digits :: "string \<Rightarrow> bool" where
  "all_digits [] = True"
| "all_digits (c # cs) = (is_digit c \<and> all_digits cs)"

definition digits_value :: "string \<Rightarrow> int" where
  "digits_value s = foldl (\<lambda>n c. 10 * n + (of_char c - 48)) 0 s"

definition ParseInt10 :: "nat \<Rightarrow> string \<Rightarrow> int option" where
  "ParseInt10 bitSize s =
     (case s of
        [] \<Rightarrow> None
      | c # cs \<Rightarrow>
          (let neg = (c = CHR ''-'');
               body = (if c = CHR ''+'' \<or> c = CHR ''-'' then cs else s)
           in if body = [] \<or> \<not> all_digits body then None
              else if neg then
                (if digits_value body \<le> 2 ^ (bitSize - 1)
                 then Some (- digits_value body) else None)
              else
                (if digits_value body < 2 ^ (bitSize - 1)
                 then Some (digits_value body) else None)))"

definition intSize :: nat where
  "intSize = 64"

definition Atoi :: "string \<Rightarrow> int option" where
  "Atoi s = ParseInt10 intSize s"

definition ParseInt_10_64 :: "string \<Rightarrow> int option" where
  "ParseInt_10_64 s = ParseInt10 64 s"

section \<open>The progress decoder (FFmpegProgress, applyKV, parseProgressLine)\<close>

text \<open>
  The snapshot's \<open>Extra\<close> field is a Go map, that is a reference: copying the struct
  (\<open>*last = p\<close>, or passing \<open>p\<close> to the sink) copies the reference, not the map. The
  maps therefore live in a store, and \<open>Extra\<close> holds \<open>None\<close> for the nil map or the
  address of a map in the store. \<open>FPS\<close> is a float64; its type is left open (\<open>'f\<close>)
  and \<open>strconv.ParseFloat(v, 64)\<close> is the parameter \<open>pf\<close> of the decoder, \<open>None\<close>
  standing for its error result.
\<close>

record 'f FFmpegProgress =
  Frame :: int
  FPS :: 'f
  Bitrate :: string
  Speed :: string
  OutTimeMs :: int
  Done :: bool
  Extra :: "nat option"

record mapstore =
  cells :: "nat \<Rightarrow> (string \<rightharpoonup> string)"
  fresh :: nat

text \<open>The zero value of the struct (\<open>var p FFmpegProgress\<close>).\<close>

definition zeroProgress :: "'f::zero FFmpegProgress" where
  "zeroProgress =
     \<lparr>Frame = 0, FPS = 0, Bitrate = [], Speed = [], OutTimeMs = 0, Done = False, Extra = None\<rparr>"

text \<open>\<open>map[string]string{}\<close>: a new empty map at an address not in use so far.\<close>

definition new_map :: "mapstore \<Rightarrow> nat \<times> mapstore" where
  "new_map h = (fresh h, h\<lparr>cells := (cells h)(fresh h := Map.empty), fresh := Suc (fresh h)\<rparr>)"

definition map_store :: "nat \<Rightarrow> string \<Rightarrow> string \<Rightarrow> mapstore \<Rightarrow> mapstore" where
  "map_store a k v h = h\<lparr>cells := (cells h)(a := (cells h a)(k \<mapsto> v))\<rparr>"

definition applyKV ::
  "(string \<Rightarrow> 'f option) \<Rightarrow> string \<Rightarrow> string \<Rightarrow>
     'f FFmpegProgress \<times> mapstore \<Rightarrow> 'f FFmpegProgress \<times> mapstore" where
  "applyKV pf k v ph =
     (let p = fst ph; h = snd ph in
      if k = ''frame'' then
        (case Atoi v of Some n \<Rightarrow> (p\<lparr>Frame := n\<rparr>, h) | None \<Rightarrow> (p, h))
      else if k = ''fps'' then
        (case pf v of Some f \<Rightarrow> (p\<lparr>FPS := f\<rparr>, h) | None \<Rightarrow> (p, h))
      else if k = ''bitrate'' then (p\<lparr>Bitrate := v\<rparr>, h)
      else if k = ''speed'' then (p\<lparr>Speed := v\<rparr>, h)
      else if k = ''out_time_ms'' then
        (case ParseInt_10_64 v of Some n \<Rightarrow> (p\<lparr>OutTimeMs := n\<rparr>, h) | None \<Rightarrow> (p, h))
      else if k = ''progress'' then (p\<lparr>Done := (v = ''end'')\<rparr>, h)
      else
        (case Extra p of
           None \<Rightarrow>
             (let (a, h') = new_map h in (p\<lparr>Extra := Some a\<rparr>, map_store a k v h'))
         | Some a \<Rightarrow> (p, map_store a k v h)))"

definition parseProgressLine ::
  "(string \<Rightarrow> 'f option) \<Rightarrow> string \<Rightarrow>
     'f FFmpegProgress \<times> mapstore \<Rightarrow> 'f FFmpegProgress \<times> mapstore" where
  "parseProgressLine pf line0 ph =
     (let line = TrimSpace line0 in
      if line = [] then ph
      else
        (let i = IndexByte line (CHR ''='') in
         if i \<le> 0 then ph
         else applyKV pf (take (nat i) line) (drop (nat i + 1) line) ph))"

section \<open>The stream scanner (scanProgress)\<close>

text \<open>
  The lines are the tokens \<open>bufio.Scanner\<close> delivers, in order. The sink \<open>cb\<close> is a Go
  closure: it may keep state of its own (\<open>'s\<close>), it receives the snapshot by value and
  with it the reference to the \<open>Extra\<close> map, so it may also write to the store; it returns
  an error (\<open>Some\<close> message) or nil (\<open>None\<close>). \<open>cancel\<close> is the run-scoped context's
  cancel function; the scanner's only effect on the context is whether it called it.
\<close>

type_synonym ('f, 's) sink =
  "'s \<Rightarrow> 'f FFmpegProgress \<Rightarrow> mapstore \<Rightarrow> string option \<times> 's \<times> mapstore"

text \<open>
  The scanner's state: \<open>cur\<close> is its local \<open>p\<close>, \<open>lastp\<close> is \<open>*last\<close>, \<open>sinkst\<close> the
  sink's own state, \<open>store\<close> the maps, \<open>cancelled\<close> whether \<open>cancel()\<close> was called,
  \<open>consumed\<close> the number of lines taken from the stream.
\<close>

record ('f, 's) scanner =
  cur :: "'f FFmpegProgress"
  lastp :: "'f FFmpegProgress"
  sinkst :: 's
  store :: mapstore
  cancelled :: bool
  consumed :: nat

text \<open>
  One iteration of the \<open>for sc.Scan()\<close> loop on the line just read: the state after
  it, and whether the function returns there (the sink asked to abort, or \<open>p.Done\<close>).
\<close>

definition scan_body ::
  "(string \<Rightarrow> 'f option) \<Rightarrow> ('f, 's) sink option \<Rightarrow> string \<Rightarrow>
     ('f, 's) scanner \<Rightarrow> ('f, 's) scanner \<times> bool" where
  "scan_body pf cb line sc =
     (let (p, h) = parseProgressLine pf line (cur sc, store sc);
          sc1 = sc\<lparr>cur := p, lastp := p, store := h, consumed := Suc (consumed sc)\<rparr>
      in case cb of
           None \<Rightarrow> (sc1, Done p)
         | Some f \<Rightarrow>
             (let (err, s, h') = f (sinkst sc1) p h;
                  sc2 = sc1\<lparr>sinkst := s, store := h'\<rparr>
              in case err of
                   Some e \<Rightarrow> (sc2\<lparr>cancelled := True\<rparr>, True)
                 | None \<Rightarrow> (sc2, Done p)))"

fun scanProgress ::
  "(string \<Rightarrow> 'f option) \<Rightarrow> ('f, 's) sink option \<Rightarrow> string list \<Rightarrow>
     ('f, 's) scanner \<Rightarrow> ('f, 's) scanner" where
  "scanProgress pf cb [] sc = sc"
| "scanProgress pf cb (line # rest) sc =
     (case scan_body pf cb line sc of
        (sc', stop) \<Rightarrow> if stop then sc' else scanProgress pf cb rest sc')"

text \<open>
  Folding a sequence of lines into a snapshot, one \<open>parseProgressLine\<close> call per line
  and nothing else: the decoder without the scanner's stopping rule.
\<close>

definition foldLines ::
  "(string \<Rightarrow> 'f option) \<Rightarrow> string list \<Rightarrow>
     'f FFmpegProgress \<times> mapstore \<Rightarrow> 'f FFmpegProgress \<times> mapstore" where
  "foldLines pf ls ph = foldl (\<lambda>q l. parseProgressLine pf l q) ph ls"

text \<open>
  What a reader of a snapshot sees: its fields, with the \<open>Extra\<close> reference replaced by
  the content of the map it points to (\<open>None\<close> for the nil map).
\<close>

definition snapshot_view ::
  "'f FFmpegProgress \<times> mapstore \<Rightarrow> 'f FFmpegProgress \<times> (string \<rightharpoonup> string) option" where
  "snapshot_view ph = ((fst ph)\<lparr>Extra := None\<rparr>, map_option (cells (snd ph)) (Extra (fst ph)))"

text \<open>
  What the sink returns to the scanner. \<open>sink_return\<close> is the value of \<open>cb(p)\<close> in the
  iteration on \<open>line\<close>: the sink is called in its current state with the snapshot just
  folded. \<open>sink_returns\<close> lists these values for all the calls the scanner makes on a
  stream, in order; the scanner's \<open>cancelled\<close> flag plays no part in either.
\<close>

definition sink_return ::
  "(string \<Rightarrow> 'f option) \<Rightarrow> ('f, 's) sink \<Rightarrow> string \<Rightarrow> ('f, 's) scanner \<Rightarrow> string option" where
  "sink_return pf f line sc =
     (let (p, h) = parseProgressLine pf line (cur sc, store sc) in fst (f (sinkst sc) p h))"

fun sink_returns ::
  "(string \<Rightarrow> 'f option) \<Rightarrow> ('f, 's) sink \<Rightarrow> string list \<Rightarrow> ('f, 's) scanner \<Rightarrow>
     string option list" where
  "sink_returns pf f [] sc = []"
| "sink_returns pf f (line # rest) sc =
     sink_return pf f line sc #
       (case scan_body pf (Some f) line sc of
          (sc', stop) \<Rightarrow> if stop then [] else sink_returns pf f rest sc')"

text \<open>\<open>var p FFmpegProgress\<close> inside the scanner; \<open>last\<close> is the caller's variable.\<close>

definition scan_start :: "'f::zero FFmpegProgress \<Rightarrow> 's \<Rightarrow> mapstore \<Rightarrow> ('f, 's) scanner" where
  "scan_start l s h =
     \<lparr>cur = zeroProgress, lastp = l, sinkst = s, store = h, cancelled = False, consumed = 0\<rparr>"

section \<open>The command builder (FFmpegCommand)\<close>

text \<open>
  \<open>FFmpegCommand\<close> holds a Go slice. A slice is a window (pointer, length, capacity) on
  a backing array, and two slices may share one array, so the arrays live in a store:
  \<open>arrays\<close> maps an address to the array allocated there (its length is its capacity) and
  \<open>nextaddr\<close> is the first address not allocated yet. \<open>append\<close> writes in place while the
  capacity suffices and moves to a new, larger array otherwise; how much larger is the
  runtime's business (\<open>growth\<close>), only that the new array holds the result is fixed.
\<close>

record slice =
  ptr :: nat
  len :: nat
  cap :: nat

record argstore =
  arrays :: "nat \<Rightarrow> string list"
  nextaddr :: nat
  growth :: "nat \<Rightarrow> nat \<Rightarrow> nat"

record FFmpegCommand =
  args :: slice

text \<open>The strings a slice shows: the first \<open>len\<close> cells of its array.\<close>

definition slice_elems :: "argstore \<Rightarrow> slice \<Rightarrow> string list" where
  "slice_elems st s = take (len s) (arrays st (ptr s))"

text \<open>
  What the Go runtime keeps true of every slice a program can hold. The nil slice (the
  \<open>args\<close> of a zero-value \<open>FFmpegCommand\<close>) is a slice of length and capacity 0 on an
  empty array; the code never compares \<open>args\<close> with nil.
\<close>

definition slice_ok :: "argstore \<Rightarrow> slice \<Rightarrow> bool" where
  "slice_ok st s = (ptr s < nextaddr st \<and> len s \<le> cap s \<and> length (arrays st (ptr s)) = cap s)"

text \<open>
  A well-formed slice whose array is not the one at address \<open>a\<close>, in a store where \<open>a\<close> is
  allocated: what stays true of the builder's slice and a snapshot's array.
\<close>

definition apart :: "nat \<Rightarrow> argstore \<Rightarrow> slice \<Rightarrow> bool" where
  "apart a st s = (slice_ok st s \<and> ptr s \<noteq> a \<and> a < nextaddr st)"

text \<open>\<open>make([]string, n, c)\<close>: a new array of \<open>c\<close> empty strings.\<close>

definition make_slice :: "nat \<Rightarrow> nat \<Rightarrow> argstore \<Rightarrow> slice \<times> argstore" where
  "make_slice n c st =
     (\<lparr>ptr = nextaddr st, len = n, cap = c\<rparr>,
      st\<lparr>arrays := (arrays st)(nextaddr st := replicate c []), nextaddr := Suc (nextaddr st)\<rparr>)"

text \<open>\<open>copy(dst, src)\<close>: the first \<open>min(len(dst), len(src))\<close> elements.\<close>

definition copy_slice :: "slice \<Rightarrow> slice \<Rightarrow> argstore \<Rightarrow> argstore" where
  "copy_slice dst src st =
     (let n = min (len dst) (len src);
          xs = take n (arrays st (ptr src))
      in st\<lparr>arrays := (arrays st)(ptr dst := xs @ drop n (arrays st (ptr dst)))\<rparr>)"

text \<open>\<open>append(s, xs...)\<close>.\<close>

definition append_slice :: "slice \<Rightarrow> string list \<Rightarrow> argstore \<Rightarrow> slice \<times> argstore" where
  "append_slice s xs st =
     (let need = len s + length xs in
      if need \<le> cap s then
        (s\<lparr>len := need\<rparr>,
         st\<lparr>arrays := (arrays st)(ptr s :=
              take (len s) (arrays st (ptr s)) @ xs @ drop need (arrays st (ptr s)))\<rparr>)
      else
        (let c = max need (growth st (cap s) need) in
         (\<lparr>ptr = nextaddr st, len = need, cap = c\<rparr>,
          st\<lparr>arrays := (arrays st)(nextaddr st :=
               take (len s) (arrays st (ptr s)) @ xs @ replicate (c - need) []),
             nextaddr := Suc (nextaddr st)\<rparr>)))"

definition NewFFmpegCommand :: "argstore \<Rightarrow> FFmpegCommand \<times> argstore" where
  "NewFFmpegCommand st =
     (\<lparr>args = \<lparr>ptr = nextaddr st, len = 1, cap = 1\<rparr>\<rparr>,
      st\<lparr>arrays := (arrays st)(nextaddr st := [''-y'']), nextaddr := Suc (nextaddr st)\<rparr>)"

definition Args :: "FFmpegCommand \<Rightarrow> argstore \<Rightarrow> slice \<times> argstore" where
  "Args c st =
     (let (out, st1) = make_slice (len (args c)) (len (args c)) st
      in (out, copy_slice out (args c) st1))"

definition AppendArgs :: "string list \<Rightarrow> FFmpegCommand \<times> argstore \<Rightarrow> FFmpegCommand \<times> argstore" where
  "AppendArgs xs cs =
     (let (s, st) = append_slice (args (fst cs)) xs (snd cs) in ((fst cs)\<lparr>args := s\<rparr>, st))"

text \<open>
  The body of \<open>for _, a := range c.args\<close> in \<open>Overwrite\<close>, at index \<open>i\<close> of the slice
  \<open>src\<close> being ranged over, with \<open>n\<close> the slice being built.
\<close>

definition overwrite_body :: "slice \<Rightarrow> slice \<times> argstore \<Rightarrow> nat \<Rightarrow> slice \<times> argstore" where
  "overwrite_body src ns i =
     (let a = arrays (snd ns) (ptr src) ! i in
      if a = ''-y'' then ns else append_slice (fst ns) [a] (snd ns))"

definition Overwrite :: "bool \<Rightarrow> FFmpegCommand \<times> argstore \<Rightarrow> FFmpegCommand \<times> argstore" where
  "Overwrite on cs =
     (if on then cs
      else
        (let src = args (fst cs);
             (n, st) = foldl (overwrite_body src) (make_slice 0 (len src) (snd cs)) [0..<len src]
         in AppendArgs [''-n''] ((fst cs)\<lparr>args := n\<rparr>, st)))"

subsection \<open>The other fluent mutators\<close>

text \<open>\<open>itoa\<close> is \<open>strconv.Itoa\<close>: the decimal digits, with a minus sign below zero.\<close>

function digits_of :: "nat \<Rightarrow> string" where
  "digits_of n =
     (if n < 10 then [char_of (48 + n)] else digits_of (n div 10) @ [char_of (48 + n mod 10)])"
  by pat_completeness auto
termination
  by (relation "measure id") auto

definition itoa :: "int \<Rightarrow> string" where
  "itoa i = (if i < 0 then CHR ''-'' # digits_of (nat (- i)) else digits_of (nat i))"

text \<open>
  Every mutator of the builder. \<open>StartAt\<close> carries the text that \<open>trimFloat\<close> renders
  for its float64 argument (\<open>fmt.Sprintf\<close> and \<open>strings.TrimRight\<close> of the library).
\<close>

datatype mutator =
    MAppendArgs "string list"
  | MHideBanner
  | MLogLevel string
  | MInput string
  | MOverwrite bool
  | MOutput string
  | MVideoCodec string
  | MAudioCodec string
  | MCopyVideo
  | MCopyAudio
  | MCRF int
  | MPreset string
  | MTune string
  | MMovFlagsFastStart
  | MMap string
  | MScale int int
  | MFPS string
  | MStartAt string

fun mutate :: "mutator \<Rightarrow> FFmpegCommand \<times> argstore \<Rightarrow> FFmpegCommand \<times> argstore" where
  "mutate (MAppendArgs xs) cs = AppendArgs xs cs"
| "mutate MHideBanner cs = AppendArgs [''-hide_banner''] cs"
| "mutate (MLogLevel level) cs = AppendArgs [''-v'', level] cs"
| "mutate (MInput path) cs = AppendArgs [''-i'', path] cs"
| "mutate (MOverwrite on) cs = Overwrite on cs"
| "mutate (MOutput path) cs = AppendArgs [path] cs"
| "mutate (MVideoCodec codec) cs = AppendArgs [''-c:v'', codec] cs"
| "mutate (MAudioCodec codec) cs = AppendArgs [''-c:a'', codec] cs"
| "mutate MCopyVideo cs = AppendArgs [''-c:v'', ''copy''] cs"
| "mutate MCopyAudio cs = AppendArgs [''-c:a'', ''copy''] cs"
| "mutate (MCRF v) cs = AppendArgs [''-crf'', itoa v] cs"
| "mutate (MPreset p) cs = AppendArgs [''-preset'', p] cs"
| "mutate (MTune t) cs = AppendArgs [''-tune'', t] cs"
| "mutate MMovFlagsFastStart cs = AppendArgs [''-movflags'', ''+faststart''] cs"
| "mutate (MMap spec) cs = AppendArgs [''-map'', spec] cs"
| "mutate (MScale w h) cs = AppendArgs [''-vf'', ''scale='' @ itoa w @ '':'' @ itoa h] cs"
| "mutate (MFPS fps) cs = AppendArgs [''-r'', fps] cs"
| "mutate (MStartAt secs) cs = AppendArgs [''-ss'', secs] cs"

text \<open>A sequence of mutator calls on one builder, in order.\<close>

definition mutate_all :: "mutator list \<Rightarrow> FFmpegCommand \<times> argstore \<Rightarrow> FFmpegCommand \<times> argstore" where
  "mutate_all ms cs = foldl (\<lambda>q m. mutate m q) cs ms"

section \<open>The readiness check (ensureReady)\<close>

text \<open>
  \<open>FFmpegTool.ensureReady\<close> and the probing tool's \<open>Tool.ensureReady\<close> have the same
  control flow; they differ in the default binary name (\<open>ffmpeg\<close>, \<open>ffprobe\<close>) and in the
  deadline of the \<open>-version\<close> run, which is part of the environment here. The
  environment \<open>check_env\<close> says what the operating system answers at each moment; the
  moment is the number of external calls made so far, so that two checks may get
  different answers. \<open>parseVersion\<close> stands for the package's \<open>parseFFmpegVersion\<close>
  (\<open>parseFFProbeVersion\<close>), a pure function of the banner.
\<close>

text \<open>
  \<open>ctx_err\<close> is what \<open>ctx.Err()\<close> returns other than nil. The three errors of the
  check carry what their messages print: the path searched for and the error of
  \<open>LookPath\<close>; the resolved path; the resolved path, the error of \<open>cmd.Run()\<close> and the
  trimmed stderr. \<open>Timeout\<close> is a \<open>time.Duration\<close>, in nanoseconds.
\<close>

datatype ctx_err = Canceled | DeadlineExceeded

datatype check_error =
    NotFound string string
  | CheckTimedOut string
  | CannotRun string string string

record FFmpegTool =
  FFmpegPath :: string
  Timeout :: int
  checked :: bool
  resolvedPath :: string
  version :: string
  checkErr :: "check_error option"

definition NewDefaultFFmpeg :: FFmpegTool where
  "NewDefaultFFmpeg =
     \<lparr>FFmpegPath = ''ffmpeg'', Timeout = 0, checked = False, resolvedPath = [],
      version = [], checkErr = None\<rparr>"

text \<open>The outcome of \<open>cmd.Run()\<close> for \<open>resolved -version\<close>.\<close>

record probe =
  runErr :: "string option"
  probeCtx :: "ctx_err option"
  probeStdout :: string
  probeStderr :: string

datatype call = LookPath string | RunVersion string | Exec string "string list"

record check_env =
  binary :: string
  lookPath :: "nat \<Rightarrow> string \<Rightarrow> string + string"
  runVersion :: "nat \<Rightarrow> string \<Rightarrow> probe"
  parseVersion :: "string \<Rightarrow> string"

text \<open>The parts of the check, as the function performs them.\<close>

definition check_path :: "check_env \<Rightarrow> FFmpegTool \<Rightarrow> string" where
  "check_path env t = (if FFmpegPath t = [] then binary env else FFmpegPath t)"

definition probe_error :: "string \<Rightarrow> probe \<Rightarrow> check_error option" where
  "probe_error resolved pr =
     (case runErr pr of
        None \<Rightarrow> None
      | Some e \<Rightarrow>
          Some (if probeCtx pr = Some DeadlineExceeded then CheckTimedOut resolved
                else CannotRun resolved e (TrimSpace (probeStderr pr))))"

definition probe_version :: "check_env \<Rightarrow> probe \<Rightarrow> string" where
  "probe_version env pr =
     (let ver = parseVersion env (probeStdout pr) in if ver = [] then ''unknown'' else ver)"

definition store_not_found :: "check_error \<Rightarrow> FFmpegTool \<Rightarrow> FFmpegTool" where
  "store_not_found e t = t\<lparr>checked := True, checkErr := Some e\<rparr>"

definition store_failed :: "string \<Rightarrow> check_error \<Rightarrow> FFmpegTool \<Rightarrow> FFmpegTool" where
  "store_failed resolved e t = t\<lparr>checked := True, resolvedPath := resolved, checkErr := Some e\<rparr>"

definition store_ok :: "string \<Rightarrow> string \<Rightarrow> FFmpegTool \<Rightarrow> FFmpegTool" where
  "store_ok resolved ver t =
     t\<lparr>checked := True, resolvedPath := resolved, version := ver, checkErr := None\<rparr>"

subsection \<open>One caller at a time\<close>

text \<open>
  The function run from its first line to its return with no other caller in between:
  the error it returns, the tool afterwards, and the external calls made (appended to
  the log of calls).
\<close>

definition ensureReady ::
  "check_env \<Rightarrow> FFmpegTool \<times> call list \<Rightarrow> check_error option \<times> FFmpegTool \<times> call list" where
  "ensureReady env tc =
     (let t = fst tc; cs = snd tc in
      if checked t then (checkErr t, t, cs)
      else
        (let path = check_path env t in
         case lookPath env (length cs) path of
           Inl e \<Rightarrow>
             (let t' = store_not_found (NotFound path e) t
              in (checkErr t', t', cs @ [LookPath path]))
         | Inr resolved \<Rightarrow>
             (let pr = runVersion env (Suc (length cs)) resolved;
                  cs' = cs @ [LookPath path, RunVersion resolved]
              in case probe_error resolved pr of
                   Some finalErr \<Rightarrow> (Some finalErr, store_failed resolved finalErr t, cs')
                 | None \<Rightarrow> (None, store_ok resolved (probe_version env pr) t, cs'))))"

definition Version ::
  "check_env \<Rightarrow> FFmpegTool \<times> call list \<Rightarrow> (check_error + string) \<times> FFmpegTool \<times> call list" where
  "Version env tc =
     (case ensureReady env tc of
        (Some e, t, cs) \<Rightarrow> (Inl e, t, cs)
      | (None, t, cs) \<Rightarrow> (Inr (version t), t, cs))"

subsection \<open>Several callers on one tool\<close>

text \<open>
  Goroutines calling \<open>ensureReady\<close> on the same tool interleave. The mutex makes each
  locked region one indivisible step; the two external calls happen with the mutex
  released and are steps of their own. A caller is at one of these places:
  \<^item> \<open>Idle\<close>: before the first \<open>t.mu.Lock()\<close>;
  \<^item> \<open>Entered\<close>: it found \<open>checked\<close> false and released the mutex, before \<open>LookPath\<close>;
  \<^item> \<open>Resolved r\<close>: \<open>LookPath\<close> gave \<open>r\<close>, before the \<open>-version\<close> run;
  \<^item> \<open>StoreNotFound e\<close>, \<open>StoreFailed r e\<close>, \<open>StoreOk r v\<close>: the check is over, before the
    locked region that writes its outcome;
  \<^item> \<open>ReadBack\<close>: after the not-found outcome was written and the mutex released, before
    \<open>return t.checkErr\<close> reads the field again;
  \<^item> \<open>Returned r\<close>: it returned \<open>r\<close>.
\<close>

datatype place =
    Idle
  | Entered
  | Resolved string
  | StoreNotFound check_error
  | ReadBack
  | StoreFailed string check_error
  | StoreOk string string
  | Returned "check_error option"

record shared =
  tool :: FFmpegTool
  callers :: "place list"
  calls :: "call list"

text \<open>The next step of one caller: its new place, the tool and the log afterwards.\<close>

fun caller_step ::
  "check_env \<Rightarrow> place \<Rightarrow> FFmpegTool \<Rightarrow> call list \<Rightarrow> place \<times> FFmpegTool \<times> call list" where
  "caller_step env Idle t cs =
     (if checked t then (Returned (checkErr t), t, cs) else (Entered, t, cs))"
| "caller_step env Entered t cs =
     (let path = check_path env t in
      case lookPath env (length cs) path of
        Inl e \<Rightarrow> (StoreNotFound (NotFound path e), t, cs @ [LookPath path])
      | Inr resolved \<Rightarrow> (Resolved resolved, t, cs @ [LookPath path]))"
| "caller_step env (Resolved resolved) t cs =
     (let pr = runVersion env (length cs) resolved in
      case probe_error resolved pr of
        Some finalErr \<Rightarrow> (StoreFailed resolved finalErr, t, cs @ [RunVersion resolved])
      | None \<Rightarrow> (StoreOk resolved (probe_version env pr), t, cs @ [RunVersion resolved]))"
| "caller_step env (StoreNotFound e) t cs = (ReadBack, store_not_found e t, cs)"
| "caller_step env ReadBack t cs = (Returned (checkErr t), t, cs)"
| "caller_step env (StoreFailed resolved e) t cs = (Returned (Some e), store_failed resolved e t, cs)"
| "caller_step env (StoreOk resolved ver) t cs = (Returned None, store_ok resolved ver t, cs)"
| "caller_step env (Returned r) t cs = (Returned r, t, cs)"

text \<open>Caller \<open>i\<close> takes its next step (a caller that does not exist takes none).\<close>

definition step :: "check_env \<Rightarrow> nat \<Rightarrow> shared \<Rightarrow> shared" where
  "step env i sh =
     (if i < length (callers sh) then
        (case caller_step env (callers sh ! i) (tool sh) (calls sh) of
           (pl, t, cs) \<Rightarrow> sh\<lparr>tool := t, callers := (callers sh)[i := pl], calls := cs\<rparr>)
      else sh)"

text \<open>An interleaving is the list of callers in the order in which they step.\<close>

definition run_schedule :: "check_env \<Rightarrow> nat list \<Rightarrow> shared \<Rightarrow> shared" where
  "run_schedule env sched sh = foldl (\<lambda>s i. step env i s) sh sched"

definition start_callers :: "FFmpegTool \<Rightarrow> nat \<Rightarrow> shared" where
  "start_callers t n = \<lparr>tool = t, callers = replicate n Idle, calls = []\<rparr>"

text \<open>
  A tool is at rest when its outcome is stored and no caller is in the middle of a
  check: each has either not called yet or has returned. \<open>answered t before after\<close>
  says what a caller may do from there: stay where it is, or call and get \<open>checkErr t\<close>.
\<close>

definition settled :: "place \<Rightarrow> bool" where
  "settled pl = (case pl of Idle \<Rightarrow> True | Returned r \<Rightarrow> True | _ \<Rightarrow> False)"

definition at_rest :: "shared \<Rightarrow> bool" where
  "at_rest sh = (checked (tool sh) \<and> list_all settled (callers sh))"

definition answered :: "FFmpegTool \<Rightarrow> place \<Rightarrow> place \<Rightarrow> bool" where
  "answered t before after = (after = before \<or> (before = Idle \<and> after = Returned (checkErr t)))"

text \<open>How many times the \<open>-version\<close> run, and the path search, were performed.\<close>

definition probes :: "call list \<Rightarrow> nat" where
  "probes cs = length (filter (\<lambda>c. case c of RunVersion r \<Rightarrow> True | _ \<Rightarrow> False) cs)"

definition lookups :: "call list \<Rightarrow> nat" where
  "lookups cs = length (filter (\<lambda>c. case c of LookPath p \<Rightarrow> True | _ \<Rightarrow> False) cs)"

section \<open>The run supervisor (RunWithProgress)\<close>

text \<open>
  What the subprocess and the operating system did during one run is the environment
  \<open>run_env\<close>: whether creating a pipe or starting failed, the lines the scanner reads
  from stdout, the bytes copied from stderr, the result of \<open>execCmd.Wait()\<close>, and what
  happened to the run-scoped context \<open>cctx\<close> apart from the scanner's own \<open>cancel()\<close>:
  \<open>ctx_before\<close> is the error \<open>cctx\<close> had acquired from its deadline or from its parent
  by the time the scanner stopped, \<open>ctx_after\<close> the one it acquired between then and the
  reading of \<open>cctx.Err()\<close>. A context keeps the first error it gets. Whether \<open>cctx\<close> was
  made with \<open>WithTimeout\<close> (\<open>Timeout > 0\<close>) or \<open>WithCancel\<close> decides only which of these
  errors can occur (a parent may carry a deadline too), not what the function does with
  them.

  A wait error is an \<open>*exec.ExitError\<close> or any other error, each with its message. The
  errors \<open>RunWithProgress\<close> returns carry what their messages print; \<open>TimedOut\<close> carries
  the configured timeout and the trimmed stderr, \<open>Failed\<close> and \<open>ExecFailed\<close> the wait
  error's message and the trimmed stderr. The \<open>world\<close> is all the state a run can change:
  the tool, the log of external calls (a started subprocess is logged as \<open>Exec\<close> with
  its binary and argument vector), the two stores and the sink's state. In the result,
  \<open>r_ctx\<close> is \<open>cctx.Err()\<close> as the outcome mapping read it (\<open>None\<close> also when the run
  returned before).
\<close>

datatype wait_error = ExitError string | WaitError string

datatype run_error =
    NotReady check_error
  | StdoutPipe string
  | StderrPipe string
  | StartFailed string
  | TimedOut int string
  | Failed string string
  | ExecFailed string string

record run_env =
  stdout_pipe_err :: "string option"
  stderr_pipe_err :: "string option"
  start_err :: "string option"
  stdout_lines :: "string list"
  stderr_text :: string
  wait_err :: "wait_error option"
  ctx_before :: "ctx_err option"
  ctx_after :: "ctx_err option"

record 's world =
  w_tool :: FFmpegTool
  w_calls :: "call list"
  w_args :: argstore
  w_maps :: mapstore
  w_sink :: 's

record ('f, 's) run_result =
  r_last :: "'f FFmpegProgress"
  r_err :: "run_error option"
  r_ctx :: "ctx_err option"
  r_world :: "'s world"

definition trimSpace :: "string \<Rightarrow> string" where
  "trimSpace s = TrimSpace s"

text \<open>\<open>cctx.Err()\<close> once the wait is over and both drain goroutines are joined.\<close>

definition ctx_final :: "run_env \<Rightarrow> bool \<Rightarrow> ctx_err option" where
  "ctx_final renv cancel_called =
     (case ctx_before renv of
        Some e \<Rightarrow> Some e
      | None \<Rightarrow> if cancel_called then Some Canceled else ctx_after renv)"

text \<open>
  The \<open>if waitErr != nil\<close> block. The branch on \<open>context.Canceled\<close> has an empty body in
  the source and so does not appear.
\<close>

definition outcome :: "int \<Rightarrow> wait_error option \<Rightarrow> ctx_err option \<Rightarrow> string \<Rightarrow> run_error option" where
  "outcome timeout waitErr cerr stderrBuf =
     (case waitErr of
        None \<Rightarrow> None
      | Some we \<Rightarrow>
          if cerr = Some DeadlineExceeded then Some (TimedOut timeout (trimSpace stderrBuf))
          else
            (case we of
               ExitError m \<Rightarrow> Some (Failed m (trimSpace stderrBuf))
             | WaitError m \<Rightarrow> Some (ExecFailed m (trimSpace stderrBuf))))"

text \<open>\<open>args := cmd.Args()\<close> and the three flags appended when a sink is given.\<close>

definition launch_args :: "FFmpegCommand \<Rightarrow> bool \<Rightarrow> argstore \<Rightarrow> slice \<times> argstore" where
  "launch_args cmd with_sink st =
     (let (a, st1) = Args cmd st in
      if with_sink then append_slice a [''-progress'', ''pipe:1'', ''-nostats''] st1
      else (a, st1))"

definition RunWithProgress ::
  "check_env \<Rightarrow> run_env \<Rightarrow> (string \<Rightarrow> 'f option) \<Rightarrow> FFmpegCommand \<Rightarrow>
     ('f::zero, 's) sink option \<Rightarrow> 's world \<Rightarrow> ('f, 's) run_result" where
  "RunWithProgress cenv renv pf cmd onProgress w =
     (let (ready, t1, cs1) = ensureReady cenv (w_tool w, w_calls w);
          w1 = w\<lparr>w_tool := t1, w_calls := cs1\<rparr>
      in case ready of
           Some e \<Rightarrow> \<lparr>r_last = zeroProgress, r_err = Some (NotReady e), r_ctx = None, r_world = w1\<rparr>
         | None \<Rightarrow>
             (let timeout = Timeout t1;
                  bin = resolvedPath t1;
                  (a, st) = launch_args cmd (onProgress \<noteq> None) (w_args w1);
                  w2 = w1\<lparr>w_args := st\<rparr>
              in case stdout_pipe_err renv of
                   Some e \<Rightarrow>
                     \<lparr>r_last = zeroProgress, r_err = Some (StdoutPipe e), r_ctx = None, r_world = w2\<rparr>
                 | None \<Rightarrow>
              (case stderr_pipe_err renv of
                   Some e \<Rightarrow>
                     \<lparr>r_last = zeroProgress, r_err = Some (StderrPipe e), r_ctx = None, r_world = w2\<rparr>
                 | None \<Rightarrow>
              (case start_err renv of
                   Some e \<Rightarrow>
                     \<lparr>r_last = zeroProgress, r_err = Some (StartFailed e), r_ctx = None, r_world = w2\<rparr>
                 | None \<Rightarrow>
                     (let w3 = w2\<lparr>w_calls := w_calls w2 @ [Exec bin (slice_elems st a)]\<rparr>;
                          sc0 = scan_start zeroProgress (w_sink w3) (w_maps w3);
                          sc = (case onProgress of
                                  None \<Rightarrow> sc0
                                | Some cb \<Rightarrow> scanProgress pf (Some cb) (stdout_lines renv) sc0);
                          cerr = ctx_final renv (cancelled sc)
                      in \<lparr>r_last = lastp sc,
                          r_err = outcome timeout (wait_err renv) cerr (stderr_text renv),
                          r_ctx = cerr,
                          r_world = w3\<lparr>w_sink := sinkst sc, w_maps := store sc\<rparr>\<rparr>)))))"

text \<open>
  The message of a returned error (\<open>fmt.Errorf\<close>). The verbs \<open>%q\<close> of a path and \<open>%s\<close> of
  a \<open>time.Duration\<close> are the library's (\<open>strconv.Quote\<close>, \<open>Duration.String\<close>).
\<close>

record fmt_env =
  quote :: "string \<Rightarrow> string"
  duration_text :: "int \<Rightarrow> string"

fun check_error_text :: "fmt_env \<Rightarrow> check_error \<Rightarrow> string" where
  "check_error_text fe (NotFound path e) =
     ''ffmpeg not found (FFmpegPath='' @ quote fe path @ ''): '' @ e"
| "check_error_text fe (CheckTimedOut resolved) =
     ''ffmpeg check timed out (path='' @ quote fe resolved @ '')''"
| "check_error_text fe (CannotRun resolved e err) =
     ''ffmpeg exists but cannot run (path='' @ quote fe resolved @ ''): '' @ e @ ''; stderr='' @ err"

fun error_text :: "fmt_env \<Rightarrow> run_error \<Rightarrow> string" where
  "error_text fe (NotReady e) = check_error_text fe e"
| "error_text fe (StdoutPipe e) = ''ffmpeg stdout pipe: '' @ e"
| "error_text fe (StderrPipe e) = ''ffmpeg stderr pipe: '' @ e"
| "error_text fe (StartFailed e) = ''ffmpeg start: '' @ e"
| "error_text fe (TimedOut timeout err) =
     ''ffmpeg timed out after '' @ duration_text fe timeout @ ''; stderr='' @ err"
| "error_text fe (Failed e err) = ''ffmpeg failed: '' @ e @ ''; stderr='' @ err"
| "error_text fe (ExecFailed e err) = ''ffmpeg exec error: '' @ e @ ''; stderr='' @ err"

text \<open>The errors that report a failed run (as opposed to a run that never started).\<close>

definition is_run_failure :: "run_error \<Rightarrow> bool" where
  "is_run_failure e =
     (case e of
        TimedOut d err \<Rightarrow> True
      | Failed m err \<Rightarrow> True
      | ExecFailed m err \<Rightarrow> True
      | _ \<Rightarrow> False)"

section \<open>Concrete inputs\<close>

text \<open>
  A machine on which \<open>ffmpeg\<close> is installed and answers \<open>-version\<close> (\<open>steady_env\<close>), and
  one on which the first \<open>-version\<close> run hangs until its deadline and later ones answer
  (\<open>flaky_env\<close>); empty stores; a tool with a five-second timeout; a builder fresh from
  \<open>NewFFmpegCommand\<close>; a sink that asks to abort at once and one that never does; the
  part of \<open>strconv.ParseFloat\<close> the inputs below need; a run whose subprocess was killed.
\<close>

definition ok_probe :: probe where
  "ok_probe =
     \<lparr>runErr = None, probeCtx = None, probeStdout = ''ffmpeg version 6.0'', probeStderr = []\<rparr>"

definition hung_probe :: probe where
  "hung_probe =
     \<lparr>runErr = Some ''signal: killed'', probeCtx = Some DeadlineExceeded,
      probeStdout = [], probeStderr = []\<rparr>"

definition steady_env :: check_env where
  "steady_env =
     \<lparr>binary = ''ffmpeg'',
      lookPath = (\<lambda>t p. Inr (''/usr/bin/'' @ p)),
      runVersion = (\<lambda>t r. ok_probe),
      parseVersion = (\<lambda>b. if b = ''ffmpeg version 6.0'' then ''6.0'' else [])\<rparr>"

definition flaky_env :: check_env where
  "flaky_env = steady_env\<lparr>runVersion := (\<lambda>t r. if t < 2 then hung_probe else ok_probe)\<rparr>"

definition args0 :: argstore where
  "args0 = \<lparr>arrays = (\<lambda>a. []), nextaddr = 0, growth = (\<lambda>c n. 2 * c)\<rparr>"

definition maps0 :: mapstore where
  "maps0 = \<lparr>cells = (\<lambda>a. Map.empty), fresh = 0\<rparr>"

definition cmd0 :: FFmpegCommand where
  "cmd0 = fst (NewFFmpegCommand args0)"

definition world0 :: "unit world" where
  "world0 =
     \<lparr>w_tool = NewDefaultFFmpeg\<lparr>Timeout := 5000000000\<rparr>, w_calls = [],
      w_args = snd (NewFFmpegCommand args0), w_maps = maps0, w_sink = ()\<rparr>"

definition abort_sink :: "(real, unit) sink" where
  "abort_sink = (\<lambda>s p h. (Some ''stop'', s, h))"

definition quiet_sink :: "(real, unit) sink" where
  "quiet_sink = (\<lambda>s p h. (None, s, h))"

definition pf1 :: "string \<Rightarrow> real option" where
  "pf1 = [''25'' \<mapsto> 25]"

definition killed_env :: run_env where
  "killed_env =
     \<lparr>stdout_pipe_err = None, stderr_pipe_err = None, start_err = None,
      stdout_lines = [''frame=1'', ''progress=continue''], stderr_text = [],
      wait_err = Some (ExitError ''signal: killed''), ctx_before = None, ctx_after = None\<rparr>"

definition long_stderr :: string where
  "long_stderr = replicate 65537 (CHR ''E'')"

text \<open>
  \<open>%q\<close> and \<open>Duration.String\<close> on the inputs used below: a path of plain ASCII letters,
  digits and slashes is put between double quotes, a whole number of seconds below a
  minute is written with the unit \<open>s\<close>.
\<close>

definition plain_fmt :: fmt_env where
  "plain_fmt =
     \<lparr>quote = (\<lambda>s. CHR 0x22 # s @ [CHR 0x22]),
      duration_text = (\<lambda>d. itoa (d div 1000000000) @ ''s'')\<rparr>"

section \<open>Properties of the decoder and the scanner\<close>

lemmas trim_defs = TrimSpace_def TrimLeftSpace_def TrimRightSpace_def white_space_encodings_def

lemmas atoi_defs = Atoi_def ParseInt_10_64_def ParseInt10_def intSize_def digits_value_def is_digit_def

lemma TrimSpace_empty: "TrimSpace [] = []"
  by (simp add: trim_defs)

lemma parse_progress_end:
  "parseProgressLine pf ''progress=end'' ph = ((fst ph)\<lparr>Done := True\<rparr>, snd ph)"
  by (simp add: parseProgressLine_def applyKV_def trim_defs)

lemma parse_progress_continue:
  "parseProgressLine pf ''progress=continue'' ph = ((fst ph)\<lparr>Done := False\<rparr>, snd ph)"
  by (simp add: parseProgressLine_def applyKV_def trim_defs)

lemma Atoi_120: "Atoi ''120'' = Some 120"
  by (simp add: atoi_defs)

lemma Atoi_abc: "Atoi ''abc'' = None"
  by (simp add: atoi_defs)

lemma ParseInt_abc: "ParseInt_10_64 ''abc'' = None"
  by (simp add: atoi_defs)

lemma parse_frame_120:
  "parseProgressLine pf ''frame=120'' ph = ((fst ph)\<lparr>Frame := 120\<rparr>, snd ph)"
  by (simp add: parseProgressLine_def applyKV_def trim_defs Atoi_120)

lemma parse_frame_abc: "parseProgressLine pf ''frame=abc'' ph = ph"
  by (simp add: parseProgressLine_def applyKV_def trim_defs Atoi_abc)

lemma parse_frame_1:
  "parseProgressLine pf ''frame=1'' ph = ((fst ph)\<lparr>Frame := 1\<rparr>, snd ph)"
  by (simp add: parseProgressLine_def applyKV_def trim_defs atoi_defs)

lemma parse_frame_2:
  "parseProgressLine pf ''frame=2'' ph = ((fst ph)\<lparr>Frame := 2\<rparr>, snd ph)"
  by (simp add: parseProgressLine_def applyKV_def trim_defs atoi_defs)

subsection \<open>One iteration of the scanner\<close>

lemma scan_body_consumed: "consumed (fst (scan_body pf cb l sc)) = Suc (consumed sc)"
  by (simp add: scan_body_def Let_def split: prod.splits option.splits)

lemma scan_body_lastp:
  "lastp (fst (scan_body pf cb l sc)) = fst (parseProgressLine pf l (cur sc, store sc))"
  by (simp add: scan_body_def Let_def split: prod.splits option.splits)

lemma scan_body_cur:
  "cur (fst (scan_body pf cb l sc)) = fst (parseProgressLine pf l (cur sc, store sc))"
  by (simp add: scan_body_def Let_def split: prod.splits option.splits)

lemma scan_body_stops_when_done:
  "Done (fst (parseProgressLine pf l (cur sc, store sc))) \<Longrightarrow> snd (scan_body pf cb l sc)"
  by (auto simp: scan_body_def Let_def split: prod.splits option.splits)

lemma scan_stops_at_end:
  "scanProgress pf cb (''progress=end'' # post) sc = fst (scan_body pf cb ''progress=end'' sc)"
proof -
  have "snd (scan_body pf cb ''progress=end'' sc)"
    by (rule scan_body_stops_when_done) (simp add: parse_progress_end)
  then show ?thesis
    by (cases "scan_body pf cb ''progress=end'' sc") simp
qed

lemma scan_end_suffix:
  "scanProgress pf cb (pre @ ''progress=end'' # post) sc
     = scanProgress pf cb (pre @ [''progress=end'']) sc"
proof (induction pre arbitrary: sc)
  case Nil
  show ?case by (simp only: append_Nil scan_stops_at_end)
next
  case (Cons l pre)
  show ?case
    by (simp add: Cons.IH split: prod.splits)
qed

lemma scan_consumed_le: "consumed (scanProgress pf cb ls sc) \<le> consumed sc + length ls"
proof (induction ls arbitrary: sc)
  case Nil
  show ?case by simp
next
  case (Cons l ls)
  obtain sc' stop where b: "scan_body pf cb l sc = (sc', stop)"
    by (cases "scan_body pf cb l sc")
  have c: "consumed sc' = Suc (consumed sc)"
    using scan_body_consumed[of pf cb l sc] b by simp
  show ?case
  proof (cases stop)
    case True
    then show ?thesis using b c by simp
  next
    case False
    then show ?thesis using b c Cons.IH[of sc'] by simp
  qed
qed

lemma scan_reaches_end_done:
  "consumed (scanProgress pf cb (pre @ [''progress=end'']) sc) = consumed sc + length pre + 1
   \<Longrightarrow> Done (lastp (scanProgress pf cb (pre @ [''progress=end'']) sc))"
proof (induction pre arbitrary: sc)
  case Nil
  have "Done (lastp (fst (scan_body pf cb ''progress=end'' sc)))"
    by (simp add: scan_body_lastp parse_progress_end)
  then show ?case
    by (simp only: append_Nil scan_stops_at_end)
next
  case (Cons l pre)
  obtain sc' stop where b: "scan_body pf cb l sc = (sc', stop)"
    by (cases "scan_body pf cb l sc")
  have c: "consumed sc' = Suc (consumed sc)"
    using scan_body_consumed[of pf cb l sc] b by simp
  show ?case
  proof (cases stop)
    case True
    then show ?thesis using b c Cons.prems by simp
  next
    case False
    then show ?thesis using b c Cons.prems Cons.IH[of sc'] by simp
  qed
qed

subsection \<open>The end-of-stream marker\<close>

text \<open>
  Claim C5. The line \<open>progress=end\<close> sets \<open>Done\<close> in whatever snapshot it is folded into,
  and the scanner stops at it: the lines after it change nothing of what the scanner
  returns (the returned snapshot, the sink, the store, the count of lines consumed), the
  scanner never consumes more than the lines up to and including it, and when it has
  consumed that line the snapshot it returns has \<open>Done\<close> set.
\<close>

theorem progress_end_stops_scan:
  "Done (fst (parseProgressLine pf ''progress=end'' ph))
   \<and> scanProgress pf cb (pre @ ''progress=end'' # post) sc
       = scanProgress pf cb (pre @ [''progress=end'']) sc
   \<and> consumed (scanProgress pf cb (pre @ ''progress=end'' # post) sc)
       \<le> consumed sc + length pre + 1
   \<and> (consumed (scanProgress pf cb (pre @ ''progress=end'' # post) sc)
         = consumed sc + length pre + 1
       \<longrightarrow> Done (lastp (scanProgress pf cb (pre @ ''progress=end'' # post) sc)))"
proof -
  have a: "Done (fst (parseProgressLine pf ''progress=end'' ph))"
    by (simp add: parse_progress_end)
  have b: "scanProgress pf cb (pre @ ''progress=end'' # post) sc
             = scanProgress pf cb (pre @ [''progress=end'']) sc"
    by (rule scan_end_suffix)
  have c: "consumed (scanProgress pf cb (pre @ [''progress=end'']) sc)
             \<le> consumed sc + length pre + 1"
    using scan_consumed_le[of pf cb "pre @ [''progress=end'']" sc] by simp
  show ?thesis
    unfolding b using a c scan_reaches_end_done[of pf cb pre sc] by blast
qed

text \<open>
  The theorem at a concrete stream: of \<open>frame=1\<close>, \<open>progress=end\<close>, \<open>frame=2\<close> the scanner
  consumes two lines and returns a snapshot with \<open>Done\<close> set and \<open>Frame = 1\<close>.
\<close>

theorem progress_end_stops_scan_witness:
  "consumed (scanProgress pf1 (Some quiet_sink) ([''frame=1''] @ ''progress=end'' # [''frame=2''])
               (scan_start zeroProgress () maps0))
     = consumed (scan_start (zeroProgress :: real FFmpegProgress) () maps0) + length [''frame=1''] + 1
   \<and> Done (lastp (scanProgress pf1 (Some quiet_sink) ([''frame=1''] @ ''progress=end'' # [''frame=2''])
                  (scan_start zeroProgress () maps0)))
   \<and> Frame (lastp (scanProgress pf1 (Some quiet_sink) ([''frame=1''] @ ''progress=end'' # [''frame=2''])
                  (scan_start zeroProgress () maps0))) = 1"
proof -
  let ?r = "scanProgress pf1 (Some quiet_sink) ([''frame=1''] @ ''progress=end'' # [''frame=2''])
              (scan_start zeroProgress () maps0)"
  have e: "?r = \<lparr>cur = zeroProgress\<lparr>Frame := 1, Done := True\<rparr>,
                  lastp = zeroProgress\<lparr>Frame := 1, Done := True\<rparr>,
                  sinkst = (), store = maps0, cancelled = False, consumed = 2\<rparr>"
    by (simp add: scan_body_def scan_start_def quiet_sink_def parse_frame_1 parse_progress_end
                  zeroProgress_def)
  have c0: "consumed (scan_start (zeroProgress :: real FFmpegProgress) () maps0) = 0"
    by (simp add: scan_start_def)
  have h: "consumed ?r
             = consumed (scan_start (zeroProgress :: real FFmpegProgress) () maps0)
               + length [''frame=1''] + 1"
    unfolding e c0 by simp
  have d: "Done (lastp ?r)"
    using h progress_end_stops_scan[of pf1 "(zeroProgress, maps0)" "Some quiet_sink"
            "[''frame=1'']" "[''frame=2'']" "scan_start zeroProgress () maps0"]
    by blast
  have f: "Frame (lastp ?r) = 1"
    unfolding e by (simp add: zeroProgress_def)
  show ?thesis
    using h d f by blast
qed

subsection \<open>Malformed numeric values\<close>

text \<open>
  Claim C6. For every snapshot, \<open>applyKV\<close> with one of the numeric keys \<open>frame\<close>, \<open>fps\<close>,
  \<open>out_time_ms\<close> and a value that its parser rejects leaves the snapshot (and the store)
  as it was; and the lines \<open>frame=120\<close>, \<open>frame=abc\<close> give a final snapshot with
  \<open>Frame = 120\<close>, folded one after the other as well as through the scanner, whatever
  the sink does.
\<close>

theorem malformed_numeric_dropped:
  "(Atoi v = None \<longrightarrow> applyKV pf ''frame'' v (p, h) = (p, h))
   \<and> (pf v = None \<longrightarrow> applyKV pf ''fps'' v (p, h) = (p, h))
   \<and> (ParseInt_10_64 v = None \<longrightarrow> applyKV pf ''out_time_ms'' v (p, h) = (p, h))
   \<and> Frame (fst (foldLines pf [''frame=120'', ''frame=abc''] (q, h))) = 120
   \<and> Frame (lastp (scanProgress pf cb [''frame=120'', ''frame=abc''] sc)) = 120"
proof -
  have s: "Frame (lastp (scanProgress pf cb [''frame=120'', ''frame=abc''] sc)) = 120"
  proof -
    obtain sc1 stop1 where b1: "scan_body pf cb ''frame=120'' sc = (sc1, stop1)"
      by (cases "scan_body pf cb ''frame=120'' sc")
    have l1: "Frame (lastp sc1) = 120" and c1: "Frame (cur sc1) = 120"
      using scan_body_lastp[of pf cb "''frame=120''" sc]
            scan_body_cur[of pf cb "''frame=120''" sc] b1
      by (simp_all add: parse_frame_120)
    obtain sc2 stop2 where b2: "scan_body pf cb ''frame=abc'' sc1 = (sc2, stop2)"
      by (cases "scan_body pf cb ''frame=abc'' sc1")
    have l2: "Frame (lastp sc2) = 120"
      using scan_body_lastp[of pf cb "''frame=abc''" sc1] b2 c1
      by (simp add: parse_frame_abc)
    show ?thesis
      using b1 b2 l1 l2 by simp
  qed
  show ?thesis
    unfolding s
    by (simp add: applyKV_def foldLines_def parse_frame_120 parse_frame_abc)
qed

text \<open>
  The theorem at the value \<open>abc\<close>, which all three parsers reject, on a snapshot that
  holds frame 120, 25 frames per second and an output time.
\<close>

theorem malformed_numeric_dropped_witness:
  "Atoi ''abc'' = None \<and> pf1 ''abc'' = None \<and> ParseInt_10_64 ''abc'' = None
   \<and> applyKV pf1 ''frame'' ''abc'' (zeroProgress\<lparr>Frame := 120, FPS := 25, OutTimeMs := 4000000\<rparr>, maps0)
       = (zeroProgress\<lparr>Frame := 120, FPS := 25, OutTimeMs := 4000000\<rparr>, maps0)
   \<and> applyKV pf1 ''fps'' ''abc'' (zeroProgress\<lparr>Frame := 120, FPS := 25, OutTimeMs := 4000000\<rparr>, maps0)
       = (zeroProgress\<lparr>Frame := 120, FPS := 25, OutTimeMs := 4000000\<rparr>, maps0)
   \<and> applyKV pf1 ''out_time_ms'' ''abc'' (zeroProgress\<lparr>Frame := 120, FPS := 25, OutTimeMs := 4000000\<rparr>, maps0)
       = (zeroProgress\<lparr>Frame := 120, FPS := 25, OutTimeMs := 4000000\<rparr>, maps0)
   \<and> Frame (fst (foldLines pf1 [''frame=120'', ''frame=abc''] (zeroProgress, maps0))) = 120"
proof -
  have h: "Atoi ''abc'' = None \<and> pf1 ''abc'' = None \<and> ParseInt_10_64 ''abc'' = None"
    by (simp add: Atoi_abc ParseInt_abc pf1_def)
  show ?thesis
    using h malformed_numeric_dropped[of "''abc''" pf1
            "zeroProgress\<lparr>Frame := 120, FPS := 25, OutTimeMs := 4000000\<rparr>" maps0 zeroProgress
            "None :: (real, unit) sink option" "scan_start zeroProgress () maps0"]
    by simp
qed

subsection \<open>The fold depends on the lines only\<close>

lemma applyKV_view:
  assumes "snapshot_view ph1 = snapshot_view ph2"
  shows "snapshot_view (applyKV pf k v ph1) = snapshot_view (applyKV pf k v ph2)"
proof -
  obtain p1 h1 where ph1: "ph1 = (p1, h1)" by (cases ph1)
  obtain p2 h2 where ph2: "ph2 = (p2, h2)" by (cases ph2)
  show ?thesis
    using assms unfolding ph1 ph2
    by (cases p1; cases p2)
       (auto simp: snapshot_view_def applyKV_def new_map_def map_store_def Let_def
             split: option.splits)
qed

lemma parseProgressLine_view:
  "snapshot_view ph1 = snapshot_view ph2 \<Longrightarrow>
   snapshot_view (parseProgressLine pf l ph1) = snapshot_view (parseProgressLine pf l ph2)"
  unfolding parseProgressLine_def Let_def
  by (auto intro: applyKV_view)

lemma foldLines_view:
  "snapshot_view ph1 = snapshot_view ph2 \<Longrightarrow>
   snapshot_view (foldLines pf ls ph1) = snapshot_view (foldLines pf ls ph2)"
proof (induction ls arbitrary: ph1 ph2)
  case Nil
  then show ?case by (simp add: foldLines_def)
next
  case (Cons l ls)
  have "snapshot_view (foldLines pf ls (parseProgressLine pf l ph1))
          = snapshot_view (foldLines pf ls (parseProgressLine pf l ph2))"
    by (rule Cons.IH) (rule parseProgressLine_view[OF Cons.prems])
  then show ?case by (simp add: foldLines_def)
qed

text \<open>
  Claim C7. Folding one sequence of lines into two fresh decoder states gives the same
  final snapshot, wherever the two decoders run: the fields and the content of the
  \<open>Extra\<close> map do not depend on the store the decoder finds (on what other decoders
  allocated or wrote there before), only on the lines.
\<close>

theorem decode_deterministic:
  "snapshot_view (foldLines pf ls (zeroProgress, h1))
     = snapshot_view (foldLines pf ls (zeroProgress, h2))"
  by (rule foldLines_view) (simp add: snapshot_view_def zeroProgress_def)

subsection \<open>The done flag\<close>

text \<open>
  Claim C10. \<open>applyKV\<close> does not latch \<open>Done\<close>: a line with key \<open>progress\<close> sets it to
  whether the value is \<open>end\<close>, so \<open>progress=continue\<close> folded after \<open>progress=end\<close> resets
  it to false. The scanner, given the same two lines, returns a snapshot with \<open>Done\<close>
  true, having consumed the first line only.
\<close>

theorem done_not_latched:
  "Done (fst (applyKV pf ''progress'' v (p, h))) = (v = ''end'')
   \<and> Done (fst (foldLines pf [''progress=end'', ''progress=continue''] (p, h))) = False
   \<and> Done (lastp (scanProgress pf cb [''progress=end'', ''progress=continue''] sc)) = True
   \<and> consumed (scanProgress pf cb [''progress=end'', ''progress=continue''] sc) = consumed sc + 1"
proof -
  have a: "Done (fst (applyKV pf ''progress'' v (p, h))) = (v = ''end'')"
    by (simp add: applyKV_def)
  have b: "Done (fst (foldLines pf [''progress=end'', ''progress=continue''] (p, h))) = False"
    by (simp add: foldLines_def parse_progress_end parse_progress_continue)
  have c: "scanProgress pf cb [''progress=end'', ''progress=continue''] sc
             = fst (scan_body pf cb ''progress=end'' sc)"
    by (rule scan_stops_at_end)
  show ?thesis
    unfolding c using a b
    by (simp add: scan_body_lastp scan_body_consumed parse_progress_end)
qed

section \<open>Properties of the command builder\<close>

subsection \<open>What append, the mutators and Args do to the store\<close>

lemma append_slice_elems:
  assumes "slice_ok st s"
  shows "slice_elems (snd (append_slice s xs st)) (fst (append_slice s xs st)) = slice_elems st s @ xs"
  using assms
  by (auto simp: append_slice_def slice_elems_def slice_ok_def Let_def)

lemma append_slice_ok:
  assumes "slice_ok st s"
  shows "slice_ok (snd (append_slice s xs st)) (fst (append_slice s xs st))"
  using assms
  by (auto simp: append_slice_def slice_ok_def Let_def)

lemma append_slice_top: "nextaddr st \<le> nextaddr (snd (append_slice s xs st))"
  by (simp add: append_slice_def Let_def)

lemma append_slice_frame:
  assumes "slice_ok st s" "a \<noteq> ptr s" "a < nextaddr st"
  shows "arrays (snd (append_slice s xs st)) a = arrays st a
         \<and> ptr (fst (append_slice s xs st)) \<noteq> a"
  using assms
  by (auto simp: append_slice_def slice_ok_def Let_def)

lemma append_slice_apart:
  assumes "apart a st s"
  shows "apart a (snd (append_slice s xs st)) (fst (append_slice s xs st))
         \<and> arrays (snd (append_slice s xs st)) a = arrays st a"
  using assms append_slice_ok[of st s xs] append_slice_frame[of st s a xs] append_slice_top[of st s xs]
  by (auto simp: apart_def)

lemma AppendArgs_apart:
  assumes "apart a st (args c)"
  shows "apart a (snd (AppendArgs xs (c, st))) (args (fst (AppendArgs xs (c, st))))
         \<and> arrays (snd (AppendArgs xs (c, st))) a = arrays st a"
  using append_slice_apart[OF assms, of xs]
  by (simp add: AppendArgs_def case_prod_beta)

lemma overwrite_body_apart:
  assumes "apart a st n"
  shows "apart a (snd (overwrite_body src (n, st) i)) (fst (overwrite_body src (n, st) i))
         \<and> arrays (snd (overwrite_body src (n, st) i)) a = arrays st a"
  using append_slice_apart[OF assms] assms
  by (simp add: overwrite_body_def Let_def)

lemma overwrite_loop_apart:
  assumes "apart a st n"
  shows "apart a (snd (foldl (overwrite_body src) (n, st) is)) (fst (foldl (overwrite_body src) (n, st) is))
         \<and> arrays (snd (foldl (overwrite_body src) (n, st) is)) a = arrays st a"
  using assms
proof (induction "is" arbitrary: n st)
  case Nil
  then show ?case by simp
next
  case (Cons i "is")
  obtain n' st' where b: "overwrite_body src (n, st) i = (n', st')"
    by (cases "overwrite_body src (n, st) i")
  have s: "apart a st' n' \<and> arrays st' a = arrays st a"
    using overwrite_body_apart[OF Cons.prems, of src i] b by simp
  show ?case
    using Cons.IH[of st' n'] s b by simp
qed

lemma make_slice_apart:
  assumes "a < nextaddr st" "n \<le> c"
  shows "apart a (snd (make_slice n c st)) (fst (make_slice n c st))
         \<and> arrays (snd (make_slice n c st)) a = arrays st a"
  using assms by (simp add: make_slice_def apart_def slice_ok_def)

lemma Overwrite_apart:
  assumes "apart a st (args c)"
  shows "apart a (snd (Overwrite on (c, st))) (args (fst (Overwrite on (c, st))))
         \<and> arrays (snd (Overwrite on (c, st))) a = arrays st a"
proof (cases on)
  case True
  then show ?thesis using assms by (simp add: Overwrite_def)
next
  case False
  obtain n0 st0 where m: "make_slice 0 (len (args c)) st = (n0, st0)"
    by (cases "make_slice 0 (len (args c)) st")
  have a0: "apart a st0 n0 \<and> arrays st0 a = arrays st a"
    using make_slice_apart[of a st 0 "len (args c)"] assms m by (simp add: apart_def)
  obtain n1 st1 where l: "foldl (overwrite_body (args c)) (n0, st0) [0..<len (args c)] = (n1, st1)"
    by (cases "foldl (overwrite_body (args c)) (n0, st0) [0..<len (args c)]")
  have a1: "apart a st1 n1 \<and> arrays st1 a = arrays st a"
    using overwrite_loop_apart[of a st0 n0 "args c" "[0..<len (args c)]"] a0 l by simp
  have a2: "apart a (snd (AppendArgs [''-n''] (c\<lparr>args := n1\<rparr>, st1)))
                 (args (fst (AppendArgs [''-n''] (c\<lparr>args := n1\<rparr>, st1))))
            \<and> arrays (snd (AppendArgs [''-n''] (c\<lparr>args := n1\<rparr>, st1))) a = arrays st1 a"
    using AppendArgs_apart[of a st1 "c\<lparr>args := n1\<rparr>" "[''-n'']"] a1 by simp
  show ?thesis
    using False m l a1 a2 by (simp add: Overwrite_def Let_def)
qed

lemma mutate_apart:
  assumes "apart a st (args c)"
  shows "apart a (snd (mutate m (c, st))) (args (fst (mutate m (c, st))))
         \<and> arrays (snd (mutate m (c, st))) a = arrays st a"
  by (cases m) (simp_all add: AppendArgs_apart[OF assms] Overwrite_apart[OF assms])

lemma mutate_all_apart:
  assumes "apart a st (args c)"
  shows "apart a (snd (mutate_all ms (c, st))) (args (fst (mutate_all ms (c, st))))
         \<and> arrays (snd (mutate_all ms (c, st))) a = arrays st a"
  using assms
proof (induction ms arbitrary: c st)
  case Nil
  then show ?case by (simp add: mutate_all_def)
next
  case (Cons m ms)
  obtain c' st' where b: "mutate m (c, st) = (c', st')"
    by (cases "mutate m (c, st)")
  have s: "apart a st' (args c') \<and> arrays st' a = arrays st a"
    using mutate_apart[OF Cons.prems, of m] b by simp
  show ?case
    using Cons.IH[of st' c'] s b by (simp add: mutate_all_def)
qed

lemma Args_result:
  assumes "slice_ok st (args c)"
  shows "ptr (fst (Args c st)) = nextaddr st"
    and "len (fst (Args c st)) = len (args c)"
    and "arrays (snd (Args c st)) (nextaddr st) = slice_elems st (args c)"
    and "apart (nextaddr st) (snd (Args c st)) (args c)"
    and "slice_elems (snd (Args c st)) (args c) = slice_elems st (args c)"
  using assms
  by (auto simp: Args_def make_slice_def copy_slice_def slice_ok_def slice_elems_def apart_def Let_def)

lemma Args_ok:
  assumes "slice_ok st (args c)"
  shows "slice_ok (snd (Args c st)) (fst (Args c st))"
    and "nextaddr (snd (Args c st)) = Suc (nextaddr st)"
  using assms
  by (auto simp: Args_def make_slice_def copy_slice_def slice_ok_def Let_def)

lemma launch_args_result:
  assumes "slice_ok st (args c)"
  shows "apart (ptr (fst (launch_args c b st))) (snd (launch_args c b st)) (args c)"
    and "slice_elems (snd (launch_args c b st)) (fst (launch_args c b st))
           = slice_elems st (args c) @ (if b then [''-progress'', ''pipe:1'', ''-nostats''] else [])"
proof -
  obtain out st1 where A: "Args c st = (out, st1)" by (cases "Args c st")
  have o: "slice_ok st1 out" and p: "ptr out = nextaddr st" and n: "nextaddr st1 = Suc (nextaddr st)"
    and ap: "apart (nextaddr st) st1 (args c)"
    and e: "slice_elems st1 out = slice_elems st (args c)"
    using Args_ok[OF assms] Args_result[OF assms] A by (simp_all add: slice_elems_def)
  have oc: "apart (ptr (args c)) st1 out"
    using o p ap by (auto simp: apart_def slice_ok_def)
  have co: "apart (ptr out) st1 (args c)"
    using ap p by simp
  show "apart (ptr (fst (launch_args c b st))) (snd (launch_args c b st)) (args c)"
  proof (cases b)
    case False
    then show ?thesis using A co by (simp add: launch_args_def)
  next
    case True
    let ?r = "append_slice out [''-progress'', ''pipe:1'', ''-nostats''] st1"
    have k: "apart (ptr (args c)) (snd ?r) (fst ?r)" and f: "arrays (snd ?r) (ptr (args c)) = arrays st1 (ptr (args c))"
      using append_slice_apart[OF oc, of "[''-progress'', ''pipe:1'', ''-nostats'']"] by simp_all
    have t: "nextaddr st1 \<le> nextaddr (snd ?r)" by (rule append_slice_top)
    have "apart (ptr (fst ?r)) (snd ?r) (args c)"
      using k f t ap by (auto simp: apart_def slice_ok_def)
    then show ?thesis using True A by (simp add: launch_args_def)
  qed
  show "slice_elems (snd (launch_args c b st)) (fst (launch_args c b st))
           = slice_elems st (args c) @ (if b then [''-progress'', ''pipe:1'', ''-nostats''] else [])"
    using A e append_slice_elems[OF o, of "[''-progress'', ''pipe:1'', ''-nostats'']"]
    by (simp add: launch_args_def)
qed

subsection \<open>The argument vector is a snapshot\<close>

text \<open>
  Claim C8. The slice \<open>Args()\<close> returns shows the builder's arguments as they are at
  that moment, and it keeps showing exactly those whatever sequence of mutators
  (\<open>AppendArgs\<close>, \<open>Overwrite\<close> or any other) is applied to the builder afterwards; the
  same holds of the argument vector that \<open>RunWithProgress\<close> builds from it for the
  subprocess (the snapshot, plus the progress flags when a sink is given).
\<close>

theorem Args_snapshot_independent:
  assumes "slice_ok st (args c)"
  shows "slice_elems (snd (Args c st)) (fst (Args c st)) = slice_elems st (args c)
         \<and> slice_elems (snd (mutate_all ms (c, snd (Args c st)))) (fst (Args c st))
             = slice_elems st (args c)
         \<and> slice_elems (snd (mutate_all ms (c, snd (launch_args c b st)))) (fst (launch_args c b st))
             = slice_elems st (args c) @ (if b then [''-progress'', ''pipe:1'', ''-nostats''] else [])"
proof -
  have e: "slice_elems (snd (Args c st)) (fst (Args c st)) = slice_elems st (args c)"
    using Args_result(1,2,3)[OF assms] by (simp add: slice_elems_def)
  have "arrays (snd (mutate_all ms (c, snd (Args c st)))) (nextaddr st)
          = arrays (snd (Args c st)) (nextaddr st)"
    using mutate_all_apart[OF Args_result(4)[OF assms], of ms] by simp
  then have m: "slice_elems (snd (mutate_all ms (c, snd (Args c st)))) (fst (Args c st))
          = slice_elems (snd (Args c st)) (fst (Args c st))"
    using Args_result(1)[OF assms] by (simp add: slice_elems_def)
  have "arrays (snd (mutate_all ms (c, snd (launch_args c b st)))) (ptr (fst (launch_args c b st)))
          = arrays (snd (launch_args c b st)) (ptr (fst (launch_args c b st)))"
    using mutate_all_apart[OF launch_args_result(1)[OF assms, of b], of ms] by simp
  then have l: "slice_elems (snd (mutate_all ms (c, snd (launch_args c b st)))) (fst (launch_args c b st))
             = slice_elems (snd (launch_args c b st)) (fst (launch_args c b st))"
    by (simp add: slice_elems_def)
  show ?thesis
    using e m l launch_args_result(2)[OF assms, of b] by simp
qed

lemmas builder_defs = mutate_all_def NewFFmpegCommand_def AppendArgs_def append_slice_def
  Overwrite_def make_slice_def overwrite_body_def Args_def copy_slice_def launch_args_def
  slice_ok_def slice_elems_def args0_def cmd0_def Let_def upt_conv_Cons

text \<open>
  The theorem on the builder fresh from \<open>NewFFmpegCommand\<close>: after \<open>Input\<close>,
  \<open>Overwrite(false)\<close> and \<open>Output\<close> the builder shows \<open>-i a.mp4 -n b.mp4\<close>, the snapshot
  taken before them still shows \<open>-y\<close>.
\<close>

theorem Args_snapshot_independent_witness:
  "slice_ok (snd (NewFFmpegCommand args0)) (args cmd0)
   \<and> slice_elems (snd (mutate_all [MInput ''a.mp4'', MOverwrite False, MOutput ''b.mp4'']
                          (cmd0, snd (Args cmd0 (snd (NewFFmpegCommand args0))))))
                   (fst (Args cmd0 (snd (NewFFmpegCommand args0)))) = [''-y'']
   \<and> slice_elems (snd (mutate_all [MInput ''a.mp4'', MOverwrite False, MOutput ''b.mp4'']
                          (cmd0, snd (Args cmd0 (snd (NewFFmpegCommand args0))))))
                   (args (fst (mutate_all [MInput ''a.mp4'', MOverwrite False, MOutput ''b.mp4'']
                          (cmd0, snd (Args cmd0 (snd (NewFFmpegCommand args0)))))))
       = [''-i'', ''a.mp4'', ''-n'', ''b.mp4'']"
proof -
  have h: "slice_ok (snd (NewFFmpegCommand args0)) (args cmd0)"
    by (simp add: builder_defs)
  have e: "slice_elems (snd (NewFFmpegCommand args0)) (args cmd0) = [''-y'']"
    by (simp add: builder_defs)
  have m: "slice_elems (snd (mutate_all [MInput ''a.mp4'', MOverwrite False, MOutput ''b.mp4'']
                          (cmd0, snd (Args cmd0 (snd (NewFFmpegCommand args0))))))
                   (args (fst (mutate_all [MInput ''a.mp4'', MOverwrite False, MOutput ''b.mp4'']
                          (cmd0, snd (Args cmd0 (snd (NewFFmpegCommand args0)))))))
       = [''-i'', ''a.mp4'', ''-n'', ''b.mp4'']"
    by (simp add: builder_defs)
  show ?thesis
    using h m Args_snapshot_independent[OF h,
            of "[MInput ''a.mp4'', MOverwrite False, MOutput ''b.mp4'']" True]
    unfolding e by blast
qed

subsection \<open>The overwrite policy\<close>

lemma map_nth_take: "n \<le> length xs \<Longrightarrow> map ((!) xs) [0..<n] = take n xs"
  by (auto simp: list_eq_iff_nth_eq)

lemma overwrite_body_elems:
  assumes "apart (ptr src) st n"
  shows "slice_elems (snd (overwrite_body src (n, st) i)) (fst (overwrite_body src (n, st) i))
           = slice_elems st n @ filter (\<lambda>a. a \<noteq> ''-y'') [arrays st (ptr src) ! i]"
  using assms append_slice_elems[of st n "[arrays st (ptr src) ! i]"]
  by (simp add: overwrite_body_def Let_def apart_def)

lemma overwrite_loop_elems:
  assumes "apart (ptr src) st n"
  shows "slice_elems (snd (foldl (overwrite_body src) (n, st) is))
                     (fst (foldl (overwrite_body src) (n, st) is))
           = slice_elems st n @ filter (\<lambda>a. a \<noteq> ''-y'') (map ((!) (arrays st (ptr src))) is)"
  using assms
proof (induction "is" arbitrary: n st)
  case Nil
  then show ?case by simp
next
  case (Cons i "is")
  obtain n' st' where b: "overwrite_body src (n, st) i = (n', st')"
    by (cases "overwrite_body src (n, st) i")
  have s: "apart (ptr src) st' n'" and f: "arrays st' (ptr src) = arrays st (ptr src)"
    using overwrite_body_apart[OF Cons.prems, of src i] b by simp_all
  have e: "slice_elems st' n' = slice_elems st n @ filter (\<lambda>a. a \<noteq> ''-y'') [arrays st (ptr src) ! i]"
    using overwrite_body_elems[OF Cons.prems, of i] b by simp
  show ?case
    using Cons.IH[OF s] b e f by simp
qed

lemma Overwrite_false_elems:
  assumes "slice_ok st (args c)"
  shows "slice_elems (snd (Overwrite False (c, st))) (args (fst (Overwrite False (c, st))))
           = filter (\<lambda>a. a \<noteq> ''-y'') (slice_elems st (args c)) @ [''-n'']"
proof -
  let ?src = "args c"
  obtain n0 st0 where m: "make_slice 0 (len ?src) st = (n0, st0)"
    by (cases "make_slice 0 (len ?src) st")
  have a0: "apart (ptr ?src) st0 n0" and f0: "arrays st0 (ptr ?src) = arrays st (ptr ?src)"
    using make_slice_apart[of "ptr ?src" st 0 "len ?src"] assms m by (simp_all add: slice_ok_def)
  have e0: "slice_elems st0 n0 = []"
    using m by (auto simp: make_slice_def slice_elems_def)
  obtain n1 st1 where l: "foldl (overwrite_body ?src) (n0, st0) [0..<len ?src] = (n1, st1)"
    by (cases "foldl (overwrite_body ?src) (n0, st0) [0..<len ?src]")
  have a1: "apart (ptr ?src) st1 n1"
    using overwrite_loop_apart[OF a0, of ?src "[0..<len ?src]"] l by simp
  have "slice_elems st1 n1
          = filter (\<lambda>a. a \<noteq> ''-y'') (map ((!) (arrays st (ptr ?src))) [0..<len ?src])"
    using overwrite_loop_elems[OF a0, of "[0..<len ?src]"] l e0 f0 by simp
  also have "map ((!) (arrays st (ptr ?src))) [0..<len ?src] = slice_elems st ?src"
    using assms by (simp add: map_nth_take slice_ok_def slice_elems_def)
  finally have e1: "slice_elems st1 n1 = filter (\<lambda>a. a \<noteq> ''-y'') (slice_elems st ?src)" .
  have "slice_elems (snd (AppendArgs [''-n''] (c\<lparr>args := n1\<rparr>, st1)))
                    (args (fst (AppendArgs [''-n''] (c\<lparr>args := n1\<rparr>, st1))))
          = slice_elems st1 n1 @ [''-n'']"
    using append_slice_elems[of st1 n1 "[''-n'']"] a1
    by (simp add: AppendArgs_def case_prod_beta apart_def)
  then show ?thesis
    using m l e1 by (simp add: Overwrite_def Let_def)
qed

text \<open>
  Claim C9. A command fresh from \<open>NewFFmpegCommand\<close> has the argument list \<open>-y\<close>;
  \<open>Overwrite(true)\<close> changes nothing; \<open>Overwrite(false)\<close> leaves the arguments other than
  \<open>-y\<close> in their order, removes every \<open>-y\<close>, and puts \<open>-n\<close> at the end.
\<close>

theorem Overwrite_policy:
  "slice_elems (snd (NewFFmpegCommand st0)) (args (fst (NewFFmpegCommand st0))) = [''-y'']
   \<and> Overwrite True (c, st) = (c, st)
   \<and> (slice_ok st (args c) \<longrightarrow>
        slice_elems (snd (Overwrite False (c, st))) (args (fst (Overwrite False (c, st))))
          = filter (\<lambda>a. a \<noteq> ''-y'') (slice_elems st (args c)) @ [''-n''])"
  using Overwrite_false_elems[of st c]
  by (simp add: NewFFmpegCommand_def slice_elems_def Overwrite_def)

text \<open>
  The theorem on a builder that holds \<open>-y -i a.mp4 -y b.mp4\<close>: \<open>Overwrite(false)\<close> leaves
  \<open>-i a.mp4 b.mp4 -n\<close>.
\<close>

theorem Overwrite_policy_witness:
  "slice_ok (snd (mutate_all [MInput ''a.mp4'', MAppendArgs [''-y''], MOutput ''b.mp4'']
                    (NewFFmpegCommand args0)))
            (args (fst (mutate_all [MInput ''a.mp4'', MAppendArgs [''-y''], MOutput ''b.mp4'']
                    (NewFFmpegCommand args0))))
   \<and> slice_elems
         (snd (Overwrite False
                (fst (mutate_all [MInput ''a.mp4'', MAppendArgs [''-y''], MOutput ''b.mp4'']
                       (NewFFmpegCommand args0)),
                 snd (mutate_all [MInput ''a.mp4'', MAppendArgs [''-y''], MOutput ''b.mp4'']
                       (NewFFmpegCommand args0)))))
         (args (fst (Overwrite False
                (fst (mutate_all [MInput ''a.mp4'', MAppendArgs [''-y''], MOutput ''b.mp4'']
                       (NewFFmpegCommand args0)),
                 snd (mutate_all [MInput ''a.mp4'', MAppendArgs [''-y''], MOutput ''b.mp4'']
                       (NewFFmpegCommand args0))))))
       = [''-i'', ''a.mp4'', ''b.mp4'', ''-n'']"
proof -
  let ?cs = "mutate_all [MInput ''a.mp4'', MAppendArgs [''-y''], MOutput ''b.mp4'']
               (NewFFmpegCommand args0)"
  have h: "slice_ok (snd ?cs) (args (fst ?cs))"
    by (simp add: builder_defs)
  have e: "slice_elems (snd ?cs) (args (fst ?cs)) = [''-y'', ''-i'', ''a.mp4'', ''-y'', ''b.mp4'']"
    by (simp add: builder_defs)
  have "slice_elems (snd (Overwrite False (fst ?cs, snd ?cs)))
                    (args (fst (Overwrite False (fst ?cs, snd ?cs))))
          = filter (\<lambda>a. a \<noteq> ''-y'') (slice_elems (snd ?cs) (args (fst ?cs))) @ [''-n'']"
    using h Overwrite_policy[of args0 "fst ?cs" "snd ?cs"] by blast
  then show ?thesis
    unfolding e using h by simp
qed

section \<open>Properties of the run supervisor\<close>

lemmas chk_defs = check_path_def probe_error_def probe_version_def
  store_ok_def store_failed_def store_not_found_def

lemmas run_defs = RunWithProgress_def ensureReady_def chk_defs launch_args_def Args_def
  make_slice_def copy_slice_def append_slice_def slice_elems_def scan_start_def scan_body_def
  ctx_final_def outcome_def trimSpace_def zeroProgress_def Let_def

lemmas ex_defs = ok_probe_def hung_probe_def steady_env_def flaky_env_def args0_def maps0_def
  world0_def cmd0_def abort_sink_def quiet_sink_def pf1_def killed_env_def NewDefaultFFmpeg_def
  NewFFmpegCommand_def

subsection \<open>The diagnostic text of a failed run\<close>

lemma strip_leading_E:
  "strip_leading white_space_encodings (replicate n (CHR ''E'')) = replicate n (CHR ''E'')"
  by (cases n) (simp_all add: white_space_encodings_def)

lemma strip_leading_rev_E:
  "strip_leading (map rev white_space_encodings) (replicate n (CHR ''E''))
     = replicate n (CHR ''E'')"
  by (cases n) (simp_all add: white_space_encodings_def)

lemma TrimSpace_replicate_E: "TrimSpace (replicate n (CHR ''E'')) = replicate n (CHR ''E'')"
  by (simp add: TrimSpace_def TrimLeftSpace_def TrimRightSpace_def
                strip_leading_E strip_leading_rev_E)

lemma outcome_text:
  assumes "outcome timeout we cerr s = Some e"
  shows "\<exists>pre. error_text fe e = pre @ ''; stderr='' @ TrimSpace s"
  using assms
  by (auto simp: outcome_def trimSpace_def split: option.splits if_splits wait_error.splits)

lemma RunWithProgress_cases:
  "r_err (RunWithProgress cenv renv pf cmd onProgress w) = Some e \<Longrightarrow>
   (\<exists>c. e = NotReady c) \<or> (\<exists>m. e = StdoutPipe m) \<or> (\<exists>m. e = StderrPipe m)
   \<or> (\<exists>m. e = StartFailed m)
   \<or> (\<exists>t c. outcome t (wait_err renv) c (stderr_text renv) = Some e)"
  by (auto simp: RunWithProgress_def Let_def split: prod.splits option.splits)

lemma killed_run_stderr:
  "r_err (RunWithProgress steady_env (killed_env\<lparr>stderr_text := replicate n (CHR ''E'')\<rparr>)
            pf1 cmd0 None world0)
     = Some (Failed ''signal: killed'' (replicate n (CHR ''E'')))"
  by (simp add: run_defs ex_defs TrimSpace_replicate_E)

text \<open>
  Claim C1, amended. When \<open>RunWithProgress\<close> ends in a run failure (timed out, failed,
  exec error) the message of the returned error ends with \<open>; stderr=\<close> followed by all
  that was captured from stderr, with leading and trailing white space removed and
  nothing else cut: a subprocess that wrote \<open>n\<close> bytes \<open>E\<close> gets a message of at least
  \<open>n\<close> bytes, for every \<open>n\<close>.
\<close>

theorem run_failure_carries_whole_stderr:
  assumes "r_err (RunWithProgress cenv renv pf cmd onProgress w) = Some e"
      and "is_run_failure e"
  shows "(\<exists>pre. error_text fe e = pre @ ''; stderr='' @ TrimSpace (stderr_text renv))
         \<and> (stderr_text renv = replicate n (CHR ''E'') \<longrightarrow> n \<le> length (error_text fe e))"
proof -
  have a: "\<exists>pre. error_text fe e = pre @ ''; stderr='' @ TrimSpace (stderr_text renv)"
    using RunWithProgress_cases[OF assms(1)] assms(2)
          outcome_text[of _ "wait_err renv" _ "stderr_text renv" e fe]
    by (auto simp: is_run_failure_def)
  then obtain pre where p: "error_text fe e = pre @ ''; stderr='' @ TrimSpace (stderr_text renv)"
    by blast
  have "stderr_text renv = replicate n (CHR ''E'') \<longrightarrow> n \<le> length (error_text fe e)"
    by (simp add: p TrimSpace_replicate_E)
  then show ?thesis using a by blast
qed

text \<open>The theorem on a run whose subprocess wrote \<open>EEE\<close> to stderr and was killed.\<close>

theorem run_failure_carries_whole_stderr_witness:
  "r_err (RunWithProgress steady_env (killed_env\<lparr>stderr_text := replicate 3 (CHR ''E'')\<rparr>)
            pf1 cmd0 None world0)
     = Some (Failed ''signal: killed'' ''EEE'')
   \<and> is_run_failure (Failed ''signal: killed'' ''EEE'')
   \<and> stderr_text (killed_env\<lparr>stderr_text := replicate 3 (CHR ''E'')\<rparr>) = replicate 3 (CHR ''E'')
   \<and> 3 \<le> length (error_text plain_fmt (Failed ''signal: killed'' ''EEE''))"
proof -
  have h1: "r_err (RunWithProgress steady_env (killed_env\<lparr>stderr_text := replicate 3 (CHR ''E'')\<rparr>)
                     pf1 cmd0 None world0)
              = Some (Failed ''signal: killed'' ''EEE'')"
    using killed_run_stderr[of 3] by (simp add: numeral_3_eq_3)
  have h2: "is_run_failure (Failed ''signal: killed'' ''EEE'')"
    by (simp add: is_run_failure_def)
  have h3: "stderr_text (killed_env\<lparr>stderr_text := replicate 3 (CHR ''E'')\<rparr>)
              = replicate 3 (CHR ''E'')"
    by simp
  show ?thesis
    using h1 h2 h3
          run_failure_carries_whole_stderr[OF h1 h2, of plain_fmt 3]
    by blast
qed

text \<open>
  Against C1 as stated: a subprocess that wrote 65537 bytes to stderr and was killed
  gets all 65537 bytes back in the error, and \<open>trimSpace\<close> has no upper bound on the
  length of what it returns.
\<close>

theorem stderr_truncation_counterexample:
  "r_err (RunWithProgress steady_env (killed_env\<lparr>stderr_text := long_stderr\<rparr>) pf1 cmd0 None world0)
     = Some (Failed ''signal: killed'' long_stderr)
   \<and> length long_stderr = 65537
   \<and> \<not> (\<exists>B. \<forall>s. length (trimSpace s) \<le> B)"
proof -
  have "\<not> (\<exists>B. \<forall>s. length (trimSpace s) \<le> B)"
  proof
    assume "\<exists>B. \<forall>s. length (trimSpace s) \<le> B"
    then obtain B where b: "\<forall>s. length (trimSpace s) \<le> B" by blast
    have "length (trimSpace (replicate (Suc B) (CHR ''E''))) = Suc B"
      unfolding trimSpace_def TrimSpace_replicate_E by (rule length_replicate)
    then show False using b[rule_format, of "replicate (Suc B) (CHR ''E'')"] by simp
  qed
  then show ?thesis
    using killed_run_stderr[of 65537] by (simp add: long_stderr_def)
qed

subsection \<open>A sink that asks to abort\<close>

text \<open>
  The scanner has called \<open>cancel\<close> exactly when one of the sink's calls returned an
  error (or \<open>cancel\<close> had been called before the scan).
\<close>

lemma scan_body_cancelled:
  "cancelled (fst (scan_body pf (Some f) l sc)) = (cancelled sc \<or> sink_return pf f l sc \<noteq> None)"
  by (auto simp: scan_body_def sink_return_def Let_def split: prod.splits option.splits)

lemma scan_body_stops_on_error:
  "sink_return pf f l sc \<noteq> None \<Longrightarrow> snd (scan_body pf (Some f) l sc)"
  by (auto simp: scan_body_def sink_return_def Let_def split: prod.splits option.splits)

lemma scan_cancelled_iff:
  "cancelled (scanProgress pf (Some f) ls sc)
     = (cancelled sc \<or> (\<exists>e. Some e \<in> set (sink_returns pf f ls sc)))"
proof (induction ls arbitrary: sc)
  case Nil
  show ?case by simp
next
  case (Cons l ls)
  obtain sc' stop where b: "scan_body pf (Some f) l sc = (sc', stop)"
    by (cases "scan_body pf (Some f) l sc")
  have c: "cancelled sc' = (cancelled sc \<or> sink_return pf f l sc \<noteq> None)"
    using scan_body_cancelled[of pf f l sc] b by simp
  show ?case
  proof (cases stop)
    case True
    then show ?thesis using b c by auto
  next
    case False
    then show ?thesis using b c Cons.IH[of sc'] by auto
  qed
qed

text \<open>
  Claim C2, amended. In a run that was started and in which the sink returned a non-nil
  error, the scanner calls \<open>cancel\<close>; if the run-scoped context was still live then, its
  error is \<open>Canceled\<close> and the outcome follows the wait result alone: no error when
  \<open>Wait\<close> returned nil, \<open>ffmpeg failed\<close> for an exit error, \<open>ffmpeg exec error\<close> for any
  other wait error. It is not reported as a timeout.
\<close>

theorem sink_abort_outcome:
  assumes "fst (ensureReady cenv (w_tool w, w_calls w)) = None"
      and "stdout_pipe_err renv = None" and "stderr_pipe_err renv = None"
      and "start_err renv = None"
      and "Some e \<in> set (sink_returns pf cb (stdout_lines renv)
                           (scan_start zeroProgress (w_sink w) (w_maps w)))"
      and "ctx_before renv = None"
  shows "cancelled (scanProgress pf (Some cb) (stdout_lines renv)
                      (scan_start zeroProgress (w_sink w) (w_maps w)))
         \<and> r_ctx (RunWithProgress cenv renv pf cmd (Some cb) w) = Some Canceled
         \<and> r_err (RunWithProgress cenv renv pf cmd (Some cb) w)
             = (case wait_err renv of
                  None \<Rightarrow> None
                | Some (ExitError m) \<Rightarrow> Some (Failed m (trimSpace (stderr_text renv)))
                | Some (WaitError m) \<Rightarrow> Some (ExecFailed m (trimSpace (stderr_text renv))))"
proof -
  obtain t1 cs1 where er: "ensureReady cenv (w_tool w, w_calls w) = (None, t1, cs1)"
    using assms(1) by (cases "ensureReady cenv (w_tool w, w_calls w)") auto
  have c: "cancelled (scanProgress pf (Some cb) (stdout_lines renv)
                        (scan_start zeroProgress (w_sink w) (w_maps w)))"
    using assms(5) by (auto simp: scan_cancelled_iff)
  show ?thesis
    using assms(2-4) assms(6) c
    by (simp add: RunWithProgress_def er Let_def ctx_final_def outcome_def
             split: prod.splits option.splits wait_error.splits)
qed

text \<open>
  The theorem on a run whose sink returns the error \<open>stop\<close> at the first progress line
  and whose subprocess is then killed: \<open>cancel\<close> is called, the context error is
  \<open>Canceled\<close>, the error is \<open>ffmpeg failed\<close>.
\<close>

theorem sink_abort_outcome_witness:
  "fst (ensureReady steady_env (w_tool world0, w_calls world0)) = None
   \<and> stdout_pipe_err killed_env = None \<and> stderr_pipe_err killed_env = None
   \<and> start_err killed_env = None
   \<and> Some ''stop'' \<in> set (sink_returns pf1 abort_sink (stdout_lines killed_env)
                               (scan_start zeroProgress (w_sink world0) (w_maps world0)))
   \<and> ctx_before killed_env = None
   \<and> cancelled (scanProgress pf1 (Some abort_sink) (stdout_lines killed_env)
                  (scan_start zeroProgress (w_sink world0) (w_maps world0)))
   \<and> r_ctx (RunWithProgress steady_env killed_env pf1 cmd0 (Some abort_sink) world0) = Some Canceled
   \<and> r_err (RunWithProgress steady_env killed_env pf1 cmd0 (Some abort_sink) world0)
       = Some (Failed ''signal: killed'' [])"
proof -
  have h1: "fst (ensureReady steady_env (w_tool world0, w_calls world0)) = None"
    by (simp add: run_defs ex_defs)
  have h2: "stdout_pipe_err killed_env = None" and h3: "stderr_pipe_err killed_env = None"
    and h4: "start_err killed_env = None" and h6: "ctx_before killed_env = None"
    by (simp_all add: killed_env_def)
  have h5: "Some ''stop'' \<in> set (sink_returns pf1 abort_sink (stdout_lines killed_env)
                                    (scan_start zeroProgress (w_sink world0) (w_maps world0)))"
    by (simp add: sink_return_def abort_sink_def killed_env_def split: prod.splits)
  have w: "wait_err killed_env = Some (ExitError ''signal: killed'')"
    and s: "trimSpace (stderr_text killed_env) = []"
    by (simp_all add: killed_env_def trimSpace_def TrimSpace_empty)
  show ?thesis
    using h1 h2 h3 h4 h5 h6 sink_abort_outcome[OF h1 h2 h3 h4 h5 h6, of cmd0]
    unfolding w s by simp
qed

text \<open>
  Against C2 as stated: the same killed subprocess is reported as \<open>ffmpeg failed\<close> when
  the sink asked to abort, and as \<open>ffmpeg timed out\<close> when the deadline expired.
\<close>

theorem sink_abort_is_not_timeout_counterexample:
  "r_err (RunWithProgress steady_env killed_env pf1 cmd0 (Some abort_sink) world0)
     = Some (Failed ''signal: killed'' [])
   \<and> r_err (RunWithProgress steady_env (killed_env\<lparr>ctx_after := Some DeadlineExceeded\<rparr>)
              pf1 cmd0 (Some quiet_sink) world0)
     = Some (TimedOut 5000000000 [])"
  by (simp add: run_defs ex_defs parse_frame_1 parse_progress_continue TrimSpace_empty)

section \<open>Properties of the readiness check\<close>

subsection \<open>One caller at a time\<close>

lemma ensureReady_cached: "checked t \<Longrightarrow> ensureReady env (t, cs) = (checkErr t, t, cs)"
  by (simp add: ensureReady_def)

lemma ensureReady_checked: "checked (fst (snd (ensureReady env tc)))"
  by (simp add: ensureReady_def Let_def chk_defs split: sum.splits option.splits)

lemma ensureReady_result:
  "fst (ensureReady env tc) = checkErr (fst (snd (ensureReady env tc)))"
  by (simp add: ensureReady_def Let_def chk_defs split: sum.splits option.splits)

text \<open>
  With no other caller in between, a second call returns what the first returned and
  makes no external call.
\<close>

lemma ensureReady_replay:
  "ensureReady env (snd (ensureReady env tc))
     = (fst (ensureReady env tc), snd (ensureReady env tc))"
proof -
  obtain r t cs where e: "ensureReady env tc = (r, t, cs)"
    by (cases "ensureReady env tc") auto
  have "checked t" and "r = checkErr t"
    using ensureReady_checked[of env tc] ensureReady_result[of env tc] e by simp_all
  then show ?thesis
    using e ensureReady_cached[of t env cs] by simp
qed

lemma Version_not_ready:
  assumes "checked t" and "checkErr t = Some e"
  shows "Version env (t, cs) = (Inl e, t, cs)"
  using assms by (simp add: Version_def ensureReady_def)

lemma RunWithProgress_not_ready:
  assumes "checked (w_tool w)" and "checkErr (w_tool w) = Some e"
  shows "RunWithProgress cenv renv pf cmd onProgress w
           = \<lparr>r_last = zeroProgress, r_err = Some (NotReady e), r_ctx = None, r_world = w\<rparr>"
  using assms by (simp add: RunWithProgress_def ensureReady_def)

text \<open>A caller alone on the tool takes the steps of the function, in four steps at most.\<close>

lemma solo_schedule:
  "run_schedule env [0, 0, 0, 0] \<lparr>tool = t, callers = [Idle], calls = cs\<rparr>
     = (case ensureReady env (t, cs) of
          (r, t', cs') \<Rightarrow> \<lparr>tool = t', callers = [Returned r], calls = cs'\<rparr>)"
  by (simp add: run_schedule_def step_def ensureReady_def Let_def chk_defs
           split: sum.splits option.splits)

subsection \<open>A tool at rest\<close>

text \<open>
  Once the outcome is stored and no caller is in the middle of a check, nothing changes
  any more, under any interleaving: the tool and the log of external calls stay as they
  are, and every caller that calls gets the stored \<open>checkErr\<close>.
\<close>

lemma caller_step_settled:
  assumes "checked t" and "settled pl"
  shows "caller_step env pl t cs = (if pl = Idle then Returned (checkErr t) else pl, t, cs)"
  using assms by (cases pl) (simp_all add: settled_def)

lemma step_at_rest:
  assumes "at_rest sh"
  shows "at_rest (step env i sh) \<and> tool (step env i sh) = tool sh
         \<and> calls (step env i sh) = calls sh
         \<and> length (callers (step env i sh)) = length (callers sh)
         \<and> list_all2 (answered (tool sh)) (callers sh) (callers (step env i sh))"
proof (cases "i < length (callers sh)")
  case False
  then show ?thesis
    using assms by (simp add: step_def answered_def list_all2_conv_all_nth)
next
  case True
  have s: "settled (callers sh ! i)"
    using assms True by (simp add: at_rest_def list_all_length)
  have c: "caller_step env (callers sh ! i) (tool sh) (calls sh)
             = (if callers sh ! i = Idle then Returned (checkErr (tool sh)) else callers sh ! i,
                tool sh, calls sh)"
    using caller_step_settled[OF _ s] assms by (simp add: at_rest_def)
  show ?thesis
    using assms True
    by (auto simp: step_def c at_rest_def list_all_length answered_def settled_def
                   list_all2_conv_all_nth nth_list_update)
qed

lemma answered_trans:
  "answered t a b \<Longrightarrow> answered t b c \<Longrightarrow> answered t a c"
  by (auto simp: answered_def)

lemma run_schedule_at_rest:
  assumes "at_rest sh"
  shows "at_rest (run_schedule env sched sh) \<and> tool (run_schedule env sched sh) = tool sh
         \<and> calls (run_schedule env sched sh) = calls sh
         \<and> list_all2 (answered (tool sh)) (callers sh) (callers (run_schedule env sched sh))"
  using assms
proof (induction sched arbitrary: sh)
  case Nil
  then show ?case
    by (simp add: run_schedule_def answered_def list_all2_conv_all_nth)
next
  case (Cons i sched)
  let ?s1 = "step env i sh"
  have q1: "at_rest ?s1" and t1: "tool ?s1 = tool sh" and c1: "calls ?s1 = calls sh"
    and a1: "list_all2 (answered (tool sh)) (callers sh) (callers ?s1)"
    using step_at_rest[OF Cons.prems, of env i] by simp_all
  have r: "run_schedule env (i # sched) sh = run_schedule env sched ?s1"
    by (simp add: run_schedule_def)
  have a2: "list_all2 (answered (tool sh)) (callers ?s1) (callers (run_schedule env sched ?s1))"
    using Cons.IH[OF q1] t1 by simp
  have "list_all2 (answered (tool sh)) (callers sh) (callers (run_schedule env sched ?s1))"
    using list_all2_trans[of "answered (tool sh)" "answered (tool sh)" "answered (tool sh)",
                          OF _ a1 a2] answered_trans by blast
  then show ?case
    using Cons.IH[OF q1] t1 c1 r by simp
qed

subsection \<open>Callers that race\<close>

text \<open>
  Claim C3 fails on the code. Two callers on a fresh tool that both pass the test of
  \<open>checked\<close> before either has written its outcome (interleaving 0, 1, 0, 0, 1, 1, 0, 1 of
  their steps) both search the path and both run the binary: two \<open>-version\<close> runs and two
  path searches, on a machine whose answers never change. On a machine where the first
  \<open>-version\<close> run hangs and the second answers, the first caller returns the time-out
  error and the second returns nil.
\<close>

theorem ensureReady_race_checks_twice:
  "probes (calls (run_schedule steady_env [0, 1, 0, 0, 1, 1, 0, 1]
                    (start_callers NewDefaultFFmpeg 2))) = 2
   \<and> lookups (calls (run_schedule steady_env [0, 1, 0, 0, 1, 1, 0, 1]
                      (start_callers NewDefaultFFmpeg 2))) = 2
   \<and> callers (run_schedule flaky_env [0, 1, 0, 0, 1, 1, 0, 1]
                 (start_callers NewDefaultFFmpeg 2))
       = [Returned (Some (CheckTimedOut ''/usr/bin/ffmpeg'')), Returned None]"
  by code_simp

text \<open>
  Claim C4 fails on the code, by the same race. Callers 0 and 1 both pass the test of
  \<open>checked\<close>; the \<open>-version\<close> run of caller 0 hangs, that of caller 1 answers. Caller 0
  writes its error and returns it; caller 2, calling next, gets the cached error; then
  caller 1 writes its success over it, and caller 3, calling after that, gets nil.
\<close>

theorem ensureReady_cached_error_replaced:
  "callers (run_schedule flaky_env [0, 1, 0, 0, 1, 1, 0, 2, 1, 3]
              (start_callers NewDefaultFFmpeg 4))
     = [Returned (Some (CheckTimedOut ''/usr/bin/ffmpeg'')), Returned None,
        Returned (Some (CheckTimedOut ''/usr/bin/ffmpeg'')), Returned None]
   \<and> checkErr (tool (run_schedule flaky_env [0, 1, 0, 0, 1, 1, 0, 2, 1, 3]
                        (start_callers NewDefaultFFmpeg 4))) = None"
  by code_simp

end
